theory Spec2Isabelle
  imports Complex_Main "HOL-Library.AList" "HOL-Library.Sublist" "HOL-Library.Multiset"
begin

section \<open>JavaScript numbers\<close>

text \<open>
  A JavaScript number is a real or one of the three non-finite values of the type
  \<open>jsnum\<close>. Rounding, overflow and the sign of zero are not modelled. Coordinates,
  vector components and times are taken to be finite and are reals; the argument of the
  confidence smoother is any number. An operation whose result on real arguments is not a real (a division by zero,
  the square root of a negative number, the arc cosine outside \<open>[-1, 1]\<close>) yields a
  non-finite value.
\<close>

datatype jsnum = Num real | PosInf | NegInf | NaN

definition js_div :: "real \<Rightarrow> real \<Rightarrow> jsnum" where
  "js_div a b =
     (if b = 0 then (if a = 0 then NaN else if 0 < a then PosInf else NegInf)
      else Num (a / b))"

definition js_sqrt :: "real \<Rightarrow> jsnum" where
  "js_sqrt v = (if v < 0 then NaN else Num (sqrt v))"

text \<open>\<open>Math.min(c, n)\<close> and \<open>Math.max(c, n)\<close> for a finite constant \<open>c\<close>.\<close>

fun js_min :: "real \<Rightarrow> jsnum \<Rightarrow> jsnum" where
  "js_min c (Num v) = Num (min c v)"
| "js_min c PosInf = Num c"
| "js_min c NegInf = NegInf"
| "js_min c NaN = NaN"

fun js_max :: "real \<Rightarrow> jsnum \<Rightarrow> jsnum" where
  "js_max c (Num v) = Num (max c v)"
| "js_max c PosInf = PosInf"
| "js_max c NegInf = Num c"
| "js_max c NaN = NaN"

fun js_acos :: "jsnum \<Rightarrow> jsnum" where
  "js_acos (Num v) = (if - 1 \<le> v \<and> v \<le> 1 then Num (arccos v) else NaN)"
| "js_acos PosInf = NaN"
| "js_acos NegInf = NaN"
| "js_acos NaN = NaN"

text \<open>\<open>n < c\<close> and \<open>n > c\<close> for a finite \<open>c\<close>: every comparison with \<open>NaN\<close> is false.\<close>

fun num_less :: "jsnum \<Rightarrow> real \<Rightarrow> bool" where
  "num_less (Num v) c = (v < c)"
| "num_less PosInf c = False"
| "num_less NegInf c = True"
| "num_less NaN c = False"

fun num_greater :: "jsnum \<Rightarrow> real \<Rightarrow> bool" where
  "num_greater (Num v) c = (c < v)"
| "num_greater PosInf c = True"
| "num_greater NegInf c = False"
| "num_greater NaN c = False"

fun num_sub :: "jsnum \<Rightarrow> jsnum \<Rightarrow> jsnum" where
  "num_sub (Num a) (Num b) = Num (a - b)"
| "num_sub NaN b = NaN"
| "num_sub a NaN = NaN"
| "num_sub PosInf PosInf = NaN"
| "num_sub NegInf NegInf = NaN"
| "num_sub PosInf b = PosInf"
| "num_sub NegInf b = NegInf"
| "num_sub (Num a) PosInf = NegInf"
| "num_sub (Num a) NegInf = PosInf"

text \<open>
  Arithmetic of a possibly non-finite value with a finite one: \<open>n / c\<close> and \<open>n * c\<close> for
  a positive constant \<open>c\<close>, \<open>c - n\<close>, \<open>n + c\<close> and \<open>1 / n\<close>.
\<close>

fun num_divc :: "jsnum \<Rightarrow> real \<Rightarrow> jsnum" where
  "num_divc (Num v) c = Num (v / c)"
| "num_divc PosInf c = PosInf"
| "num_divc NegInf c = NegInf"
| "num_divc NaN c = NaN"

fun num_mulc :: "jsnum \<Rightarrow> real \<Rightarrow> jsnum" where
  "num_mulc (Num v) c = Num (v * c)"
| "num_mulc PosInf c = PosInf"
| "num_mulc NegInf c = NegInf"
| "num_mulc NaN c = NaN"

fun num_rsub :: "real \<Rightarrow> jsnum \<Rightarrow> jsnum" where
  "num_rsub c (Num v) = Num (c - v)"
| "num_rsub c PosInf = NegInf"
| "num_rsub c NegInf = PosInf"
| "num_rsub c NaN = NaN"

fun num_addc :: "jsnum \<Rightarrow> real \<Rightarrow> jsnum" where
  "num_addc (Num v) c = Num (v + c)"
| "num_addc PosInf c = PosInf"
| "num_addc NegInf c = NegInf"
| "num_addc NaN c = NaN"

text \<open>\<open>a + b\<close> on all numbers.\<close>

fun num_add :: "jsnum \<Rightarrow> jsnum \<Rightarrow> jsnum" where
  "num_add (Num a) (Num b) = Num (a + b)"
| "num_add NaN b = NaN"
| "num_add a NaN = NaN"
| "num_add PosInf NegInf = NaN"
| "num_add NegInf PosInf = NaN"
| "num_add PosInf b = PosInf"
| "num_add NegInf b = NegInf"
| "num_add (Num a) PosInf = PosInf"
| "num_add (Num a) NegInf = NegInf"

fun num_recip :: "jsnum \<Rightarrow> jsnum" where
  "num_recip (Num v) = js_div 1 v"
| "num_recip PosInf = Num 0"
| "num_recip NegInf = Num 0"
| "num_recip NaN = NaN"

text \<open>
  \<open>Math.atan2(y, x)\<close> on reals, from the arc tangent; \<open>Math.atan2(0, 0)\<close> is \<open>0\<close>.
\<close>

definition atan2 :: "real \<Rightarrow> real \<Rightarrow> real" where
  "atan2 y x =
     (if 0 < x then arctan (y / x)
      else if x < 0 then (if 0 \<le> y then arctan (y / x) + pi else arctan (y / x) - pi)
      else if 0 < y then pi / 2
      else if y < 0 then - (pi / 2)
      else 0)"

section \<open>vectorMath.ts\<close>

record 'n Vector2D =
  vx :: 'n
  vy :: 'n

record 'n Vector3D =
  wx :: 'n
  wy :: 'n
  wz :: 'n

definition distance2D :: "real Vector2D \<Rightarrow> real Vector2D \<Rightarrow> jsnum" where
  "distance2D a b =
     (let dx = vx a - vx b; dy = vy a - vy b in js_sqrt (dx * dx + dy * dy))"

definition distance3D :: "real Vector3D \<Rightarrow> real Vector3D \<Rightarrow> jsnum" where
  "distance3D a b =
     (let dx = wx a - wx b; dy = wy a - wy b; dz = wz a - wz b
      in js_sqrt (dx * dx + dy * dy + dz * dz))"

definition normalize2D :: "real Vector2D \<Rightarrow> jsnum Vector2D" where
  "normalize2D v =
     (case js_sqrt (vx v * vx v + vy v * vy v) of
        Num len \<Rightarrow>
          if len = 0 then \<lparr>vx = Num 0, vy = Num 0\<rparr>
          else \<lparr>vx = js_div (vx v) len, vy = js_div (vy v) len\<rparr>
      | other \<Rightarrow> \<lparr>vx = NaN, vy = NaN\<rparr>)"

definition dot3D :: "real Vector3D \<Rightarrow> real Vector3D \<Rightarrow> real" where
  "dot3D a b = wx a * wx b + wy a * wy b + wz a * wz b"

definition angleBetween3D :: "real Vector3D \<Rightarrow> real Vector3D \<Rightarrow> jsnum" where
  "angleBetween3D a b =
     (let dot = dot3D a b in
      case (js_sqrt (wx a * wx a + wy a * wy a + wz a * wz a),
            js_sqrt (wx b * wx b + wy b * wy b + wz b * wz b)) of
        (Num magA, Num magB) \<Rightarrow>
          if magA = 0 \<or> magB = 0 then Num 0
          else js_acos (js_max (- 1) (js_min 1 (js_div dot (magA * magB))))
      | other \<Rightarrow> NaN)"

section \<open>ConfidenceSmoother\<close>

text \<open>
  The smoother's state is its \<open>history\<close> array; \<open>smooth\<close> returns the smoothed value and
  the new history. The argument of \<open>smooth\<close> is any number: \<open>Math.min\<close> and \<open>Math.max\<close>
  bring an infinite one into the range and return \<open>NaN\<close> on \<open>NaN\<close>.
\<close>

definition maxHistorySize :: nat where "maxHistorySize = 5"
definition minConfidence :: real where "minConfidence = 0"
definition maxConfidence :: real where "maxConfidence = 1"
definition alpha :: real where "alpha = 0.5"

fun ema_loop :: "jsnum \<Rightarrow> jsnum list \<Rightarrow> jsnum" where
  "ema_loop ema [] = ema"
| "ema_loop ema (h # hs) = ema_loop (num_add (num_mulc h alpha) (num_mulc ema (1 - alpha))) hs"

definition exponentialMovingAverage :: "jsnum list \<Rightarrow> jsnum" where
  "exponentialMovingAverage history =
     (case history of
        [] \<Rightarrow> Num 0
      | [h] \<Rightarrow> h
      | h # hs \<Rightarrow> ema_loop h hs)"

definition smooth :: "jsnum \<Rightarrow> jsnum list \<Rightarrow> jsnum \<times> jsnum list" where
  "smooth confidence history =
     (let clamped = js_max minConfidence (js_min maxConfidence confidence);
          pushed = history @ [clamped];
          shifted = (if length pushed > maxHistorySize then tl pushed else pushed)
      in (exponentialMovingAverage shifted, shifted))"

definition getCurrent :: "jsnum list \<Rightarrow> jsnum" where
  "getCurrent history = (if length history = 0 then Num 0 else exponentialMovingAverage history)"

text \<open>A fresh smoother fed a sequence of values: the values it returns, in order.\<close>

fun smooth_run :: "jsnum list \<Rightarrow> jsnum list \<Rightarrow> jsnum list" where
  "smooth_run history [] = []"
| "smooth_run history (v # vs) =
     (case smooth v history of (r, history') \<Rightarrow> r # smooth_run history' vs)"

section \<open>rateLimit.ts\<close>

text \<open>
  The module's \<open>rateLimitStore\<close> is a \<open>Map\<close>: an association list in insertion order
  with distinct keys, empty when the module is loaded. \<open>Date.now()\<close> is the argument
  \<open>now\<close>, in milliseconds. \<open>checkRateLimit\<close> returns its result and the new store.
\<close>

record RateLimitEntry =
  count :: int
  resetAt :: int

record RateLimitResult =
  allowed :: bool
  remaining :: int
  result_resetAt :: int

type_synonym rateLimitStore = "(string \<times> RateLimitEntry) list"

definition RATE_LIMIT_WINDOW_MS :: int where "RATE_LIMIT_WINDOW_MS = 60 * 1000"
definition RATE_LIMIT_MAX_REQUESTS :: int where "RATE_LIMIT_MAX_REQUESTS = 60"

definition cleanupExpiredEntries :: "int \<Rightarrow> rateLimitStore \<Rightarrow> rateLimitStore" where
  "cleanupExpiredEntries now st = filter (\<lambda>(key, entry). \<not> now \<ge> resetAt entry) st"

text \<open>The first branch of \<open>checkRateLimit\<close>: a new entry, or an expired one reset.\<close>

definition newWindow :: "int \<Rightarrow> string \<Rightarrow> rateLimitStore \<Rightarrow> RateLimitResult \<times> rateLimitStore" where
  "newWindow now identifier st =
     (let r = now + RATE_LIMIT_WINDOW_MS;
          st1 = AList.update identifier \<lparr>count = 1, resetAt = r\<rparr> st;
          st2 = (if length st1 > 1000 then cleanupExpiredEntries now st1 else st1)
      in (\<lparr>allowed = True, remaining = RATE_LIMIT_MAX_REQUESTS - 1, result_resetAt = r\<rparr>, st2))"

definition checkRateLimit :: "int \<Rightarrow> string \<Rightarrow> rateLimitStore \<Rightarrow> RateLimitResult \<times> rateLimitStore" where
  "checkRateLimit now identifier st =
     (case map_of st identifier of
        None \<Rightarrow> newWindow now identifier st
      | Some entry \<Rightarrow>
          if now \<ge> resetAt entry then newWindow now identifier st
          else if count entry \<ge> RATE_LIMIT_MAX_REQUESTS then
            (\<lparr>allowed = False, remaining = 0, result_resetAt = resetAt entry\<rparr>, st)
          else
            (let entry' = entry\<lparr>count := count entry + 1\<rparr>
             in (\<lparr>allowed = True, remaining = RATE_LIMIT_MAX_REQUESTS - count entry',
                  result_resetAt = resetAt entry\<rparr>,
                 AList.update identifier entry' st)))"

text \<open>
  A sequence of calls \<open>(now, identifier)\<close> from a store: how many of the calls made for
  \<open>ident\<close> are allowed and report the window that ends at \<open>r\<close>.
\<close>

fun granted :: "string \<Rightarrow> int \<Rightarrow> rateLimitStore \<Rightarrow> (int \<times> string) list \<Rightarrow> nat" where
  "granted ident r st [] = 0"
| "granted ident r st ((now, i) # calls) =
     (case checkRateLimit now i st of
        (res, st') \<Rightarrow>
          (if i = ident \<and> allowed res \<and> result_resetAt res = r then 1 else 0)
          + granted ident r st' calls)"

text \<open>The same sequence of calls: the time, the identifier and the result of each.\<close>

fun rl_log :: "rateLimitStore \<Rightarrow> (int \<times> string) list \<Rightarrow> (int \<times> string \<times> RateLimitResult) list" where
  "rl_log st [] = []"
| "rl_log st ((now, i) # calls) =
     (case checkRateLimit now i st of (res, st') \<Rightarrow> (now, i, res) # rl_log st' calls)"

section \<open>Strings\<close>

text \<open>
  A string is the list of the bytes of its UTF-8 form. On well-formed strings, equality,
  concatenation, \<open>includes\<close> and the search for an ASCII character give on the bytes
  what JavaScript computes on the UTF-16 code units.

  \<open>String.prototype.toLowerCase\<close> follows the case mapping of Unicode, which is not
  written out here: it is a function of the platform, the field \<open>toLowerCase\<close> of the
  record \<open>world\<close> below, and the argument \<open>lc\<close> of the functions that lower a name.

  The class \<open>\s\<close> of a regular expression, which is also what \<open>trim\<close> removes, is the
  white space and the line terminators of ECMAScript: U+0009 to U+000D, U+0020, U+00A0,
  U+1680, U+2000 to U+200A, U+2028, U+2029, U+202F, U+205F, U+3000 and U+FEFF.
\<close>

definition whiteSpace :: "string list" where
  "whiteSpace =
     map (\<lambda>c. [c]) [CHR 0x09, CHR 0x0A, CHR 0x0B, CHR 0x0C, CHR 0x0D, CHR 0x20] @
     [[CHR 0xC2, CHR 0xA0], [CHR 0xE1, CHR 0x9A, CHR 0x80]] @
     map (\<lambda>c. [CHR 0xE2, CHR 0x80, c])
       [CHR 0x80, CHR 0x81, CHR 0x82, CHR 0x83, CHR 0x84, CHR 0x85, CHR 0x86, CHR 0x87,
        CHR 0x88, CHR 0x89, CHR 0x8A, CHR 0xA8, CHR 0xA9, CHR 0xAF] @
     [[CHR 0xE2, CHR 0x81, CHR 0x9F], [CHR 0xE3, CHR 0x80, CHR 0x80],
      [CHR 0xEF, CHR 0xBB, CHR 0xBF]]"

text \<open>
  The number of bytes of the character of \<open>spaces\<close> that \<open>s\<close> begins with, \<open>0\<close> if it
  begins with none.
\<close>

definition spaceAt :: "string list \<Rightarrow> string \<Rightarrow> nat" where
  "spaceAt spaces s = (case find (\<lambda>w. prefix w s) spaces of None \<Rightarrow> 0 | Some w \<Rightarrow> length w)"

text \<open>\<open>hay.includes(needle)\<close>: \<open>needle\<close> occurs in \<open>hay\<close> as a contiguous run.\<close>

fun str_includes :: "string \<Rightarrow> string \<Rightarrow> bool" where
  "str_includes [] needle = (needle = [])"
| "str_includes (c # cs) needle = (prefix needle (c # cs) \<or> str_includes cs needle)"

text \<open>
  \<open>s.split(/\s+/)\<close>: the pieces between maximal runs of white space; a leading or a
  trailing run leaves an empty piece, and the empty string gives one empty piece.
  \<open>skip\<close> counts the bytes left of the white space character being read, \<open>inRun\<close> says
  that the previous character was white space, \<open>cur\<close> is the piece being read, reversed.
\<close>

fun split_go :: "nat \<Rightarrow> bool \<Rightarrow> string \<Rightarrow> string \<Rightarrow> string list" where
  "split_go skip inRun cur [] = [rev cur]"
| "split_go skip inRun cur (c # cs) =
     (if 0 < skip then split_go (skip - 1) inRun cur cs
      else if 0 < spaceAt whiteSpace (c # cs) then
        (if inRun then split_go (spaceAt whiteSpace (c # cs) - 1) True cur cs
         else rev cur # split_go (spaceAt whiteSpace (c # cs) - 1) True [] cs)
      else split_go 0 False (c # cur) cs)"

definition split_ws :: "string \<Rightarrow> string list" where
  "split_ws s = split_go 0 False [] s"

text \<open>
  \<open>s.trim()\<close>: the white space at the head is dropped, then the white space at the end,
  read backwards.
\<close>

fun dropSpaces :: "string list \<Rightarrow> nat \<Rightarrow> string \<Rightarrow> string" where
  "dropSpaces spaces skip [] = []"
| "dropSpaces spaces skip (c # cs) =
     (if 0 < skip then dropSpaces spaces (skip - 1) cs
      else if 0 < spaceAt spaces (c # cs) then dropSpaces spaces (spaceAt spaces (c # cs) - 1) cs
      else c # cs)"

definition trim :: "string \<Rightarrow> string" where
  "trim s = rev (dropSpaces (map rev whiteSpace) 0 (rev (dropSpaces whiteSpace 0 s)))"

text \<open>JavaScript truthiness of a value that is a string or absent.\<close>

fun truthy :: "string option \<Rightarrow> bool" where
  "truthy None = False"
| "truthy (Some s) = (s \<noteq> [])"

text \<open>\<open>a || b\<close> on such values, and \<open>a || 'literal'\<close>.\<close>

definition js_or :: "string option \<Rightarrow> string option \<Rightarrow> string option" where
  "js_or a b = (if truthy a then a else b)"

fun or_default :: "string option \<Rightarrow> string \<Rightarrow> string" where
  "or_default None d = d"
| "or_default (Some s) d = (if s \<noteq> [] then s else d)"

text \<open>\<open>!v\<close> for a value that is a number or absent: \<open>undefined\<close> and \<open>0\<close> are falsy.\<close>

fun falsy_number :: "real option \<Rightarrow> bool" where
  "falsy_number None = True"
| "falsy_number (Some v) = (v = 0)"

section \<open>Sorting by score\<close>

text \<open>
  \<open>array.sort((a, b) => b.score - a.score)\<close>. \<open>Array.prototype.sort\<close> is stable, and a
  comparator result that is \<open>NaN\<close> counts as \<open>0\<close>. The model is the stable insertion sort:
  \<open>a\<close> goes behind \<open>b\<close> when the comparator is positive on \<open>(a, b)\<close>.
\<close>

definition comparator :: "('a \<Rightarrow> jsnum) \<Rightarrow> 'a \<Rightarrow> 'a \<Rightarrow> jsnum" where
  "comparator sc a b = num_sub (sc b) (sc a)"

fun insert_desc :: "('a \<Rightarrow> jsnum) \<Rightarrow> 'a \<Rightarrow> 'a list \<Rightarrow> 'a list" where
  "insert_desc sc a [] = [a]"
| "insert_desc sc a (b # bs) =
     (if num_greater (comparator sc a b) 0 then b # insert_desc sc a bs else a # b # bs)"

definition sort_desc :: "('a \<Rightarrow> jsnum) \<Rightarrow> 'a list \<Rightarrow> 'a list" where
  "sort_desc sc xs = foldr (insert_desc sc) xs []"

section \<open>Great-circle distance and bearing\<close>

text \<open>
  The routes compute the distance and the bearing inline, with the same text at every
  place; the model names the two computations.
\<close>

definition haversine :: "real \<Rightarrow> real \<Rightarrow> real \<Rightarrow> real \<Rightarrow> jsnum" where
  "haversine userLat userLng placeLat placeLng =
     (let R = 6371000;
          dLat = (placeLat - userLat) * pi / 180;
          dLng = (placeLng - userLng) * pi / 180;
          a = sin (dLat / 2) * sin (dLat / 2) +
              cos (userLat * pi / 180) * cos (placeLat * pi / 180) *
              sin (dLng / 2) * sin (dLng / 2)
      in case (js_sqrt a, js_sqrt (1 - a)) of
           (Num s, Num t) \<Rightarrow> Num (R * (2 * atan2 s t))
         | other \<Rightarrow> NaN)"

definition bearingTo :: "real \<Rightarrow> real \<Rightarrow> real \<Rightarrow> real \<Rightarrow> real" where
  "bearingTo userLat userLng placeLat placeLng =
     (let dLng = (placeLng - userLng) * pi / 180;
          y = sin dLng * cos (placeLat * pi / 180);
          x = cos (userLat * pi / 180) * sin (placeLat * pi / 180) -
              sin (userLat * pi / 180) * cos (placeLat * pi / 180) * cos dLng
      in atan2 y x * 180 / pi)"

section \<open>The collaborators of the routes\<close>

text \<open>
  A place of a Places API response. \<open>place_lat\<close> and \<open>place_lng\<close> are
  \<open>geometry?.location?.lat\<close> and \<open>lng\<close>, \<open>None\<close> when a link of the chain is missing.
  An absent \<open>place_id\<close> is the empty string: the code only tests it for truthiness and
  pastes it into the details URL. The name is always there (the code calls
  \<open>place.name.toLowerCase()\<close> unguarded).
\<close>

record place =
  place_name :: string
  place_lat :: "real option"
  place_lng :: "real option"
  place_id :: string
  place_types :: "string list option"
  place_rating :: "real option"
  place_url :: "string option"
  place_website :: "string option"

text \<open>
  What the vision model answered, once parsed: every field is a string or absent
  (\<open>null\<close> or \<open>undefined\<close>). Values of other JSON types are not modelled.
\<close>

record visionResult =
  v_name :: "string option"
  v_type :: "string option"
  v_description :: "string option"
  v_details :: "string option"
  v_year :: "string option"
  v_architecturalStyle :: "string option"
  v_significance :: "string option"

text \<open>
  A \<open>fetch\<close> followed by \<open>response.json()\<close>: either of them threw, the response was not
  \<open>ok\<close>, or the parsed body.
\<close>

datatype 'a fetched = Threw | NotOk | Fetched 'a

record searchData =
  status :: string
  results :: "place list option"

record detailedPlace =
  d_name :: "string option"
  d_types :: "string list option"
  d_url :: "string option"
  d_website :: "string option"

text \<open>
  The text-search query, kept structured (the formatting of numbers is not modelled):
  the name, the name with \<open>near lat,lng\<close>, and the name with the type.
\<close>

datatype searchQuery =
    NameOnly string
  | NameNear string real real
  | NameAndType string string

text \<open>
  The Gemini call: it threw, the response was not \<open>ok\<close>, its JSON could not be
  read, or \<open>candidates?.[0]?.content?.parts?.[0]?.text\<close> of the body.
\<close>

datatype geminiOutcome = GeminiThrew | GeminiNotOk | GeminiBadBody | GeminiText "string option"

text \<open>
  Everything outside the handler that one request meets. \<open>toLowerCase\<close> is
  \<open>String.prototype.toLowerCase\<close>. \<open>hasApiKey\<close>: the environment
  variable \<open>GOOGLE_API_KEY\<close> is set and not empty. \<open>jsonParse\<close> is \<open>JSON.parse\<close>
  (\<open>None\<close>: it throws); \<open>matchName\<close>, \<open>matchType\<close> and \<open>matchDescription\<close> are the first
  capture group of the two regular expressions tried in turn on the text. \<open>geoNow\<close> is
  the clock read by the nested geo-context handler.
\<close>

record world =
  toLowerCase :: "string \<Rightarrow> string"
  hasApiKey :: bool
  gemini :: "string \<Rightarrow> geminiOutcome"
  jsonParse :: "string \<Rightarrow> visionResult option"
  matchName :: "string \<Rightarrow> string option"
  matchType :: "string \<Rightarrow> string option"
  matchDescription :: "string \<Rightarrow> string option"
  textSearch :: "searchQuery \<Rightarrow> searchData fetched"
  nearbySearch :: "real \<Rightarrow> searchData fetched"
  placeDetails :: "string \<Rightarrow> detailedPlace option fetched"
  geoNow :: int

text \<open>
  What tap-context does towards the outside, in order: reading its request body and
  calling a collaborator. The searches made by the nested geo-context handler follow
  \<open>CallGeoContext\<close>.
\<close>

datatype call =
    ReadBody
  | CallGemini string
  | CallTextSearch searchQuery
  | CallNearbySearch real
  | CallDetails string
  | CallGeoContext

section \<open>tap-context: the vision hint\<close>

text \<open>
  \<open>jsonText.match(/\{[\s\S]*\}/)\<close>: from the first opening brace to the last closing
  brace behind it.
\<close>

definition matchBraces :: "string \<Rightarrow> string option" where
  "matchBraces s =
     (let fromOpen = dropWhile (\<lambda>c. c \<noteq> CHR ''{'') s;
          toClose = dropWhile (\<lambda>c. c \<noteq> CHR ''}'') (rev fromOpen)
      in if fromOpen = [] \<or> toClose = [] then None else Some (rev toClose))"

text \<open>
  \<open>.replace(/```json\n?/g, '')\<close> and \<open>.replace(/```\n?/g, '')\<close>: every occurrence of the
  fence, with the line feed behind it if there is one, is removed.
\<close>

definition afterFence :: "string \<Rightarrow> string \<Rightarrow> string" where
  "afterFence fence s =
     (let rest = drop (length fence) s
      in case rest of [] \<Rightarrow> [] | d # ds \<Rightarrow> if d = CHR 0x0A then ds else rest)"

lemma length_afterFence [termination_simp]:
  "fence \<noteq> [] \<Longrightarrow> length (afterFence fence (c # cs)) < Suc (length cs)"
proof -
  have "length (afterFence fence (c # cs)) \<le> length (drop (length fence) (c # cs))"
    by (cases "drop (length fence) (c # cs)") (simp_all add: afterFence_def Let_def)
  moreover assume "fence \<noteq> []"
  then have "length (drop (length fence) (c # cs)) < Suc (length cs)"
    by (cases fence) simp_all
  ultimately show ?thesis by simp
qed

fun removeFence :: "string \<Rightarrow> string \<Rightarrow> string" where
  "removeFence fence [] = []"
| "removeFence fence (c # cs) =
     (if fence \<noteq> [] \<and> prefix fence (c # cs)
      then removeFence fence (afterFence fence (c # cs))
      else c # removeFence fence cs)"

definition stripFences :: "string \<Rightarrow> string" where
  "stripFences s =
     (let jsonText = trim s
      in if prefix ''```'' jsonText
         then trim (removeFence ''```'' (removeFence ''```json'' jsonText))
         else jsonText)"

text \<open>\<open>.trim().replace(/^["']|["']$/g, '')\<close>: one quote less at either end.\<close>

definition is_quote :: "char \<Rightarrow> bool" where
  "is_quote c = (c = CHR 0x22 \<or> c = CHR 0x27)"

definition stripQuotes :: "string \<Rightarrow> string" where
  "stripQuotes s =
     (let t = trim s;
          t1 = (case t of [] \<Rightarrow> [] | c # cs \<Rightarrow> if is_quote c then cs else t);
          t2 = (case rev t1 of [] \<Rightarrow> [] | c # cs \<Rightarrow> if is_quote c then rev cs else t1)
      in t2)"

text \<open>The \<open>catch\<close> of the parse: name, type and description from the raw text.\<close>

definition extractFallback :: "world \<Rightarrow> string \<Rightarrow> visionResult" where
  "extractFallback w text =
     \<lparr>v_name = map_option stripQuotes (matchName w text),
      v_type = map_option stripQuotes (matchType w text),
      v_description = map_option stripQuotes (matchDescription w text),
      v_details = None, v_year = None, v_architecturalStyle = None, v_significance = None\<rparr>"

definition parseVisionText :: "world \<Rightarrow> string \<Rightarrow> visionResult option" where
  "parseVisionText w text =
     (case matchBraces (stripFences text) of
        None \<Rightarrow> None
      | Some jsonMatch \<Rightarrow>
          (case jsonParse w jsonMatch of
             Some parsed \<Rightarrow> Some parsed
           | None \<Rightarrow> Some (extractFallback w text)))"

text \<open>\<open>image.includes(',') ? image.split(',')[1] : image\<close>\<close>

definition base64Image :: "string \<Rightarrow> string" where
  "base64Image img =
     (if CHR '','' \<in> set img
      then takeWhile (\<lambda>c. c \<noteq> CHR '','') (tl (dropWhile (\<lambda>c. c \<noteq> CHR '','') img))
      else img)"

text \<open>
  Step 1 of the handler, the whole \<open>try\<close>: the hint and the calls made. Reading the API
  key throws when the key is missing, before the request is sent.
\<close>

definition visionStep :: "world \<Rightarrow> string \<Rightarrow> visionResult option \<times> call list" where
  "visionStep w img =
     (if \<not> hasApiKey w then (None, [])
      else
        (let data = base64Image img in
         case gemini w data of
           GeminiThrew \<Rightarrow> (None, [CallGemini data])
         | GeminiNotOk \<Rightarrow> (None, [CallGemini data])
         | GeminiBadBody \<Rightarrow> (None, [CallGemini data])
         | GeminiText None \<Rightarrow> (None, [CallGemini data])
         | GeminiText (Some text) \<Rightarrow>
             if text = [] then (None, [CallGemini data])
             else (parseVisionText w text, [CallGemini data])))"

section \<open>tap-context: scoring the candidates\<close>

record scoredA =
  a_place :: place
  a_distance :: jsnum
  a_nameScore :: real
  a_score :: jsnum

record scoredB =
  b_place :: place
  b_distance :: jsnum
  b_bearing :: real
  b_score :: jsnum

text \<open>
  The name similarity of the text-search callback. The divisor of the word overlap is
  at least 1: \<open>split\<close> never returns an empty array.
\<close>

definition nameScoreOf :: "(string \<Rightarrow> string) \<Rightarrow> string \<Rightarrow> string \<Rightarrow> real" where
  "nameScoreOf lc visionName placeName =
     (let nameLower = lc placeName;
          visionNameLower = lc visionName
      in if visionNameLower \<noteq> [] \<and> nameLower = visionNameLower then 1.0
         else if visionNameLower \<noteq> [] \<and>
                 (str_includes nameLower visionNameLower \<or> str_includes visionNameLower nameLower)
         then 0.7
         else if visionNameLower \<noteq> [] then
           (let visionWords = split_ws visionNameLower;
                placeWords = split_ws nameLower;
                overlap = length (filter (\<lambda>w. w \<in> set placeWords) visionWords)
            in real overlap / real (max (length visionWords) (length placeWords)))
         else 0)"

text \<open>
  The \<open>map\<close> callback of the text search (Strategy 1 of the code): \<open>None\<close> is the
  \<open>null\<close> returned for a place without coordinates.
\<close>

definition matchPlace ::
  "(string \<Rightarrow> string) \<Rightarrow> string \<Rightarrow> real \<Rightarrow> real \<Rightarrow> place \<Rightarrow> scoredA option" where
  "matchPlace lc visionName userLat userLng p =
     (if falsy_number (place_lat p) \<or> falsy_number (place_lng p) then None
      else case (place_lat p, place_lng p) of
        (Some placeLat, Some placeLng) \<Rightarrow>
          (let distance = haversine userLat userLng placeLat placeLng;
               nameScore = nameScoreOf lc visionName (place_name p);
               score = num_addc (num_mulc (num_rsub 1 (js_min 1 (num_divc distance 2000))) 0.3)
                         (nameScore * 0.7)
           in Some \<lparr>a_place = p, a_distance = distance, a_nameScore = nameScore, a_score = score\<rparr>)
      | other \<Rightarrow> None)"

text \<open>The \<open>map\<close> callback of the nearby search (Strategy 2 of the code).\<close>

definition typeMatches :: "(string \<Rightarrow> string) \<Rightarrow> string option \<Rightarrow> place \<Rightarrow> bool" where
  "typeMatches lc visionType p =
     (case (visionType, place_types p) of
        (Some ty, Some types) \<Rightarrow>
          ty \<noteq> [] \<and>
          list_ex (\<lambda>t. str_includes (lc t) (lc ty) \<or> str_includes (lc ty) (lc t)) types
      | other \<Rightarrow> False)"

definition scoreNearby ::
  "(string \<Rightarrow> string) \<Rightarrow> string option \<Rightarrow> real \<Rightarrow> real \<Rightarrow> real \<Rightarrow> real \<Rightarrow> place \<Rightarrow> scoredB option" where
  "scoreNearby lc visionType dirX dirZ userLat userLng p =
     (if falsy_number (place_lat p) \<or> falsy_number (place_lng p) then None
      else case (place_lat p, place_lng p) of
        (Some placeLat, Some placeLng) \<Rightarrow>
          (let bearing = bearingTo userLat userLng placeLat placeLng;
               distance = haversine userLat userLng placeLat placeLng;
               tapBearing = atan2 dirX dirZ * 180 / pi;
               score0 = num_recip (num_addc (num_divc distance 50) 1);
               bearingDiff = \<bar>bearing - tapBearing\<bar>;
               directionScore = (if bearingDiff < 45 then 1 - bearingDiff / 45 else 0);
               score1 = num_addc score0 (directionScore * 0.5);
               score = (if typeMatches lc visionType p then num_addc score1 0.3 else score1)
           in Some \<lparr>b_place = p, b_distance = distance, b_bearing = bearing, b_score = score\<rparr>)
      | other \<Rightarrow> None)"

text \<open>
  The acceptance test on the sorted list (\<open>matches\<close>, \<open>placesWithScores\<close>): its head, if
  there is one and it passes.
\<close>

definition acceptText :: "scoredA list \<Rightarrow> scoredA option" where
  "acceptText matches =
     (case matches of
        [] \<Rightarrow> None
      | m # ms \<Rightarrow> if num_less (a_distance m) 2000 then Some m else None)"

definition searchRadius :: real where "searchRadius = 150"

definition acceptNearby :: "scoredB list \<Rightarrow> scoredB option" where
  "acceptNearby placesWithScores =
     (case placesWithScores of
        [] \<Rightarrow> None
      | bestMatch # ms \<Rightarrow>
          if num_less (b_distance bestMatch) searchRadius \<and> num_greater (b_score bestMatch) 0.2
          then Some bestMatch else None)"

text \<open>The selection from the \<open>results\<close> of one search response.\<close>

definition bestTextMatch ::
  "(string \<Rightarrow> string) \<Rightarrow> string \<Rightarrow> real \<Rightarrow> real \<Rightarrow> place list option \<Rightarrow> scoredA option" where
  "bestTextMatch lc visionName userLat userLng res =
     (case res of
        None \<Rightarrow> None
      | Some rs \<Rightarrow>
          if rs = [] then None
          else acceptText
                 (sort_desc a_score (List.map_filter (matchPlace lc visionName userLat userLng) rs)))"

definition bestNearby ::
  "(string \<Rightarrow> string) \<Rightarrow> string option \<Rightarrow> real \<Rightarrow> real \<Rightarrow> real \<Rightarrow> real \<Rightarrow> place list option \<Rightarrow> scoredB option" where
  "bestNearby lc visionType dirX dirZ userLat userLng res =
     (case res of
        None \<Rightarrow> None
      | Some rs \<Rightarrow>
          if rs = [] then None
          else acceptNearby
                 (sort_desc b_score
                    (List.map_filter (scoreNearby lc visionType dirX dirZ userLat userLng) rs)))"

section \<open>tap-context: the searches\<close>

text \<open>A step inside a \<open>try\<close>: it threw, or it ended with a value.\<close>

datatype 'a attempt = Thrown | Done 'a

text \<open>
  The loop over \<open>searchQueries\<close>. A response that is not \<open>ok\<close> moves on to the next
  query; \<open>REQUEST_DENIED\<close> and \<open>ZERO_RESULTS\<close> leave the loop; so does an accepted match.
\<close>

fun textSearchLoop ::
  "world \<Rightarrow> string \<Rightarrow> real \<Rightarrow> real \<Rightarrow> searchQuery list \<Rightarrow> scoredA option attempt \<times> call list" where
  "textSearchLoop w visionName lat lng [] = (Done None, [])"
| "textSearchLoop w visionName lat lng (q # qs) =
     (case textSearch w q of
        Threw \<Rightarrow> (Thrown, [CallTextSearch q])
      | NotOk \<Rightarrow>
          (let (r, calls) = textSearchLoop w visionName lat lng qs in (r, CallTextSearch q # calls))
      | Fetched textSearchData \<Rightarrow>
          if status textSearchData = ''REQUEST_DENIED'' \<or> status textSearchData = ''ZERO_RESULTS''
          then (Done None, [CallTextSearch q])
          else (case bestTextMatch (toLowerCase w) visionName lat lng (results textSearchData) of
                  Some m \<Rightarrow> (Done (Some m), [CallTextSearch q])
                | None \<Rightarrow>
                    (let (r, calls) = textSearchLoop w visionName lat lng qs
                     in (r, CallTextSearch q # calls))))"

definition searchQueries :: "visionResult \<Rightarrow> string \<Rightarrow> real \<Rightarrow> real \<Rightarrow> searchQuery list" where
  "searchQueries v visionName lat lng =
     [NameOnly visionName, NameNear visionName lat lng,
      NameAndType visionName (or_default (v_type v) [])]"

text \<open>Strategy 1: only when the hint has a name.\<close>

definition strategy1 ::
  "world \<Rightarrow> visionResult option \<Rightarrow> real \<Rightarrow> real \<Rightarrow> scoredA option attempt \<times> call list" where
  "strategy1 w vision lat lng =
     (case vision of
        None \<Rightarrow> (Done None, [])
      | Some v \<Rightarrow>
          (case v_name v of
             None \<Rightarrow> (Done None, [])
           | Some visionName \<Rightarrow>
               if visionName = [] then (Done None, [])
               else textSearchLoop w visionName lat lng (searchQueries v visionName lat lng)))"

text \<open>Strategy 2: one nearby search with the radius of 150 m.\<close>

definition strategy2 ::
  "world \<Rightarrow> visionResult option \<Rightarrow> real \<Rightarrow> real \<Rightarrow> real \<Rightarrow> real \<Rightarrow>
   scoredB option attempt \<times> call list" where
  "strategy2 w vision dirX dirZ lat lng =
     (case nearbySearch w searchRadius of
        Threw \<Rightarrow> (Thrown, [CallNearbySearch searchRadius])
      | NotOk \<Rightarrow> (Done None, [CallNearbySearch searchRadius])
      | Fetched nearbyData \<Rightarrow>
          if status nearbyData = ''REQUEST_DENIED'' then (Done None, [CallNearbySearch searchRadius])
          else (Done (bestNearby (toLowerCase w)
                        (case vision of None \<Rightarrow> None | Some v \<Rightarrow> v_type v)
                        dirX dirZ lat lng (results nearbyData)),
                [CallNearbySearch searchRadius]))"

section \<open>tap-context: the results\<close>

text \<open>
  The JSON body of a result. The subtitle is kept structured: the type string that the
  code reformats, a fixed text, the text built from the location with \<open>toFixed(4)\<close>, or
  the text built from the tap position. The \<open>description\<close> and \<open>details\<close> texts are
  not modelled.
\<close>

datatype subtitle =
    FormattedType string
  | FixedText string
  | LocationText real real
  | TappedAt real real

record resultBody =
  title :: string
  subtitle :: subtitle
  year :: "string option"
  confidence :: real
  url :: "string option"

datatype response =
    RateLimited int
  | BadRequest string
  | LookupFailed
  | Answer resultBody RateLimitResult

definition v_field :: "visionResult option \<Rightarrow> (visionResult \<Rightarrow> string option) \<Rightarrow> string option" where
  "v_field vision f = (case vision of None \<Rightarrow> None | Some v \<Rightarrow> f v)"

definition yearOf :: "visionResult option \<Rightarrow> string option" where
  "yearOf vision = (if truthy (v_field vision v_year) then v_field vision v_year else None)"

text \<open>The merged result of an accepted place whose details were fetched.\<close>

definition combinedResult :: "visionResult option \<Rightarrow> detailedPlace \<Rightarrow> resultBody" where
  "combinedResult vision dp =
     \<lparr>title = or_default (js_or (v_field vision v_name) (d_name dp)) ''Building'',
      subtitle = FormattedType
        (or_default (js_or (v_field vision v_type)
                       (case d_types dp of Some (t # ts) \<Rightarrow> Some t | other \<Rightarrow> None))
           ''Location''),
      year = yearOf vision,
      confidence = 0.9,
      url = js_or (d_url dp) (d_website dp)\<rparr>"

text \<open>The result built from the hint alone (three places of the code build it).\<close>

definition visionOnlyResult :: "visionResult \<Rightarrow> resultBody" where
  "visionOnlyResult v =
     \<lparr>title = or_default (v_name v) ''Building'',
      subtitle = FormattedType (or_default (v_type v) ''Location''),
      year = yearOf (Some v),
      confidence = 0.7,
      url = None\<rparr>"

section \<open>tap-context: the place lookup (Step 3)\<close>

text \<open>
  The \<open>try\<close> block entered when \<open>latitude && longitude\<close> holds. It either returns a
  result (\<open>Some\<close>) or is left without one, by falling through or by an exception that its
  \<open>catch\<close> logs (\<open>None\<close>). Reading the API key throws when the key is missing.
\<close>

definition fetchDetails ::
  "world \<Rightarrow> visionResult option \<Rightarrow> string \<Rightarrow> resultBody option \<times> call list" where
  "fetchDetails w vision placeId =
     (case placeDetails w placeId of
        Threw \<Rightarrow> (None, [CallDetails placeId])
      | NotOk \<Rightarrow> (None, [CallDetails placeId])
      | Fetched None \<Rightarrow> (None, [CallDetails placeId])
      | Fetched (Some detailed) \<Rightarrow> (Some (combinedResult vision detailed), [CallDetails placeId]))"

definition placeLookup ::
  "world \<Rightarrow> visionResult option \<Rightarrow> real \<Rightarrow> real \<Rightarrow> real \<Rightarrow> real \<Rightarrow>
   resultBody option \<times> call list" where
  "placeLookup w vision dirX dirZ lat lng =
     (if \<not> hasApiKey w then (None, [])
      else case strategy1 w vision lat lng of
        (Thrown, calls1) \<Rightarrow> (None, calls1)
      | (Done accepted1, calls1) \<Rightarrow>
          (let placeId1 = (case accepted1 of None \<Rightarrow> [] | Some m \<Rightarrow> place_id (a_place m)) in
           case (if placeId1 = [] then strategy2 w vision dirX dirZ lat lng else (Done None, [])) of
             (Thrown, calls2) \<Rightarrow> (None, calls1 @ calls2)
           | (Done accepted2, calls2) \<Rightarrow>
               (let placeId = (case accepted2 of None \<Rightarrow> placeId1 | Some m \<Rightarrow> place_id (b_place m)) in
                if placeId \<noteq> [] then
                  (case fetchDetails w vision placeId of
                     (r, calls3) \<Rightarrow> (r, calls1 @ calls2 @ calls3))
                else
                  (case vision of
                     Some v \<Rightarrow> (Some (visionOnlyResult v), calls1 @ calls2)
                   | None \<Rightarrow> (None, calls1 @ calls2)))))"

section \<open>geo-context/route.ts\<close>

text \<open>A ranked place of the geo-context response: the fields that tap-context reads.\<close>

record geoPlace =
  g_name :: string
  g_confidence :: jsnum
  g_type :: string
  g_url :: "string option"
  g_website :: "string option"

definition rankPlace :: "real \<Rightarrow> real \<Rightarrow> real \<Rightarrow> real \<Rightarrow> place \<Rightarrow> geoPlace option" where
  "rankPlace dirX dirZ latitude longitude p =
     (if falsy_number (place_lat p) \<or> falsy_number (place_lng p) then None
      else case (place_lat p, place_lng p) of
        (Some placeLat, Some placeLng) \<Rightarrow>
          (let distance = haversine latitude longitude placeLat placeLng;
               bearing = bearingTo latitude longitude placeLat placeLng;
               directionBearing = atan2 dirX dirZ * 180 / pi;
               bearingDiff = \<bar>bearing - directionBearing\<bar>;
               directionMatch = 1 - min (bearingDiff / 90) 1;
               distanceScore = js_max 0.3 (num_rsub 1 (num_divc distance 1000));
               ratingScore = (case place_rating p of
                                None \<Rightarrow> 0.7
                              | Some rating \<Rightarrow> if rating = 0 then 0.7 else rating / 5);
               conf = num_addc (num_addc (num_mulc distanceScore 0.4) (ratingScore * 0.3))
                        (directionMatch * 0.3)
           in Some \<lparr>g_name = place_name p, g_confidence = conf,
                    g_type = (case place_types p of
                                Some (t # ts) \<Rightarrow> if t = [] then ''establishment'' else t
                              | other \<Rightarrow> ''establishment''),
                    g_url = place_url p, g_website = place_website p\<rparr>)
      | other \<Rightarrow> None)"

text \<open>The places of the response with status 200, and the calls made for them.\<close>

definition geoPlaces :: "world \<Rightarrow> real \<Rightarrow> real \<Rightarrow> real \<Rightarrow> real \<Rightarrow> geoPlace list \<times> call list" where
  "geoPlaces w dirX dirZ latitude longitude =
     (if \<not> hasApiKey w then ([], [])
      else case nearbySearch w 500 of
        Threw \<Rightarrow> ([], [CallNearbySearch 500])
      | NotOk \<Rightarrow> ([], [CallNearbySearch 500])
      | Fetched placesData \<Rightarrow>
          (case results placesData of
             None \<Rightarrow> ([], [CallNearbySearch 500])
           | Some rs \<Rightarrow>
               if status placesData \<noteq> ''OK'' \<or> rs = [] then ([], [CallNearbySearch 500])
               else (take 5 (sort_desc g_confidence
                       (List.map_filter (rankPlace dirX dirZ latitude longitude) (take 10 rs))),
                     [CallNearbySearch 500])))"

text \<open>
  The handler as tap-context calls it: the body is the one tap-context built, with a
  numeric location and a direction. \<open>None\<close> is a response that is not \<open>ok\<close>.
\<close>

definition geoContextHandler ::
  "int \<Rightarrow> rateLimitStore \<Rightarrow> string \<Rightarrow> world \<Rightarrow> real \<Rightarrow> real \<Rightarrow> real \<Rightarrow> real \<Rightarrow>
   geoPlace list option \<times> call list \<times> rateLimitStore" where
  "geoContextHandler now st clientId w dirX dirZ latitude longitude =
     (case checkRateLimit now clientId st of
        (rateLimit, st') \<Rightarrow>
          if \<not> allowed rateLimit then (None, [], st')
          else if latitude < - 90 \<or> latitude > 90 \<or> longitude < - 180 \<or> longitude > 180
          then (None, [], st')
          else (case geoPlaces w dirX dirZ latitude longitude of
                  (places, calls) \<Rightarrow> (Some places, calls, st')))"

section \<open>tap-context: the handler\<close>

record tapBody =
  image :: "string option"
  tapX :: "real option"
  tapY :: "real option"
  latitude :: "real option"
  longitude :: "real option"

text \<open>
  The request: the two headers that identify the client and the parsed JSON body
  (\<open>None\<close>: \<open>request.json()\<close> throws). In the body, \<open>image\<close> is a string or absent,
  the other fields are numbers or absent.
\<close>

record request =
  x_forwarded_for :: "string option"
  x_real_ip :: "string option"
  body :: "tapBody option"

definition getClientIdentifier :: "request \<Rightarrow> string" where
  "getClientIdentifier req =
     or_default
       (js_or (map_option (takeWhile (\<lambda>c. c \<noteq> CHR '','')) (x_forwarded_for req)) (x_real_ip req))
       ''unknown''"

text \<open>\<open>latitude && longitude\<close>\<close>

definition hasLocation :: "real option \<Rightarrow> real option \<Rightarrow> bool" where
  "hasLocation lat lng = (\<not> falsy_number lat \<and> \<not> falsy_number lng)"

text \<open>The nearby-places fallback: it returns a result, or is left without one.\<close>

definition geoFallback ::
  "rateLimitStore \<Rightarrow> string \<Rightarrow> world \<Rightarrow> visionResult option \<Rightarrow> real \<Rightarrow> real \<Rightarrow> real \<Rightarrow> real \<Rightarrow>
   resultBody option \<times> call list \<times> rateLimitStore" where
  "geoFallback st clientId w vision dirX dirZ lat lng =
     (case geoContextHandler (geoNow w) st clientId w dirX dirZ lat lng of
        (None, calls, st') \<Rightarrow> (None, CallGeoContext # calls, st')
      | (Some [], calls, st') \<Rightarrow>
          (case vision of
             Some v \<Rightarrow> (Some (visionOnlyResult v), CallGeoContext # calls, st')
           | None \<Rightarrow> (None, CallGeoContext # calls, st'))
      | (Some (bestPlace # others), calls, st') \<Rightarrow>
          (Some \<lparr>title = or_default (js_or (v_field vision v_name) (Some (g_name bestPlace)))
                           ''Unknown Place'',
                 subtitle = FormattedType
                   (or_default (js_or (v_field vision v_type) (Some (g_type bestPlace))) ''Location''),
                 year = yearOf vision,
                 confidence = (case g_confidence bestPlace of
                                 Num c \<Rightarrow> if c = 0 then 0.8 else c
                               | other \<Rightarrow> 0.8),
                 url = js_or (g_url bestPlace) (g_website bestPlace)\<rparr>,
           CallGeoContext # calls, st'))"

text \<open>The last fallback: the hint alone, or a message.\<close>

definition finalFallback ::
  "world \<Rightarrow> visionResult option \<Rightarrow> real \<Rightarrow> real \<Rightarrow> real option \<Rightarrow> real option \<Rightarrow> resultBody" where
  "finalFallback w vision x y lat lng =
     (case vision of
        Some v \<Rightarrow> visionOnlyResult v
      | None \<Rightarrow>
          (let (t, sub) =
                 (case (lat, lng) of
                    (Some la, Some lo) \<Rightarrow>
                      if la = 0 \<or> lo = 0 then
                        (''Location Required'',
                         FixedText ''Please enable location permissions to get real information about places you tap on.'')
                      else if \<not> hasApiKey w then
                        (''API Key Not Configured'',
                         FixedText ''Google Places API key is required. Add GOOGLE_API_KEY to your .env file.'')
                      else (''No Information Found'', LocationText la lo)
                  | other \<Rightarrow>
                      (''Location Required'',
                       FixedText ''Please enable location permissions to get real information about places you tap on.''))
           in \<lparr>title = t,
               subtitle = (if sub = FixedText [] then TappedAt x y else sub),
               year = None, confidence = 0.3, url = None\<rparr>))"

text \<open>
  Step 2: the direction of the tap, its \<open>x\<close> and \<open>z\<close> components (\<open>y\<close> is computed and
  passed on, and no score reads it).
\<close>

definition tapDirection :: "real \<Rightarrow> real \<times> real" where
  "tapDirection x =
     (let fov = 60;
          fovRad = fov * pi / 180;
          offsetX = (x - 0.5) * 2
      in (sin (offsetX * fovRad / 2) * 0.1, 0.95))"

text \<open>What follows the vision step: Step 3 and the fallbacks.\<close>

definition afterVision ::
  "rateLimitStore \<Rightarrow> string \<Rightarrow> world \<Rightarrow> visionResult option \<Rightarrow> real \<Rightarrow> real \<Rightarrow>
   real option \<Rightarrow> real option \<Rightarrow> resultBody \<times> call list \<times> rateLimitStore" where
  "afterVision st clientId w vision x y lat lng =
     (case tapDirection x of
        (dirX, dirZ) \<Rightarrow>
          (case (lat, lng) of
             (Some la, Some lo) \<Rightarrow>
               if hasLocation lat lng then
                 (case placeLookup w vision dirX dirZ la lo of
                    (Some r, calls1) \<Rightarrow> (r, calls1, st)
                  | (None, calls1) \<Rightarrow>
                      (case geoFallback st clientId w vision dirX dirZ la lo of
                         (Some r, calls2, st') \<Rightarrow> (r, calls1 @ calls2, st')
                       | (None, calls2, st') \<Rightarrow>
                           (finalFallback w vision x y lat lng, calls1 @ calls2, st')))
               else (finalFallback w vision x y lat lng, [], st)
           | other \<Rightarrow> (finalFallback w vision x y lat lng, [], st)))"

text \<open>Everything behind the validation of the request.\<close>

definition resolve ::
  "rateLimitStore \<Rightarrow> string \<Rightarrow> world \<Rightarrow> string \<Rightarrow> real \<Rightarrow> real \<Rightarrow> real option \<Rightarrow> real option \<Rightarrow>
   resultBody \<times> call list \<times> rateLimitStore" where
  "resolve st clientId w img x y lat lng =
     (case visionStep w img of
        (vision, calls0) \<Rightarrow>
          (case afterVision st clientId w vision x y lat lng of
             (r, calls, st') \<Rightarrow> (r, calls0 @ calls, st')))"

text \<open>The handler: the new store is returned with the response and the calls made.\<close>

definition POST ::
  "int \<Rightarrow> rateLimitStore \<Rightarrow> request \<Rightarrow> world \<Rightarrow> response \<times> call list \<times> rateLimitStore" where
  "POST now st req w =
     (let clientId = getClientIdentifier req in
      case checkRateLimit now clientId st of
        (rateLimit, st1) \<Rightarrow>
          if \<not> allowed rateLimit then (RateLimited (result_resetAt rateLimit), [], st1)
          else
            (case body req of
               None \<Rightarrow> (LookupFailed, [ReadBody], st1)
             | Some b \<Rightarrow>
                 (case (image b, tapX b, tapY b) of
                    (Some img, Some x, Some y) \<Rightarrow>
                      if img = [] then
                        (BadRequest ''Image and tap coordinates required'', [ReadBody], st1)
                      else if real (length img) * 3 / 4 > 5 * 1024 * 1024 then
                        (BadRequest ''Frame too large'', [ReadBody], st1)
                      else
                        (case resolve st1 clientId w img x y (latitude b) (longitude b) of
                           (r, calls, st2) \<Rightarrow> (Answer r rateLimit, ReadBody # calls, st2))
                  | other \<Rightarrow>
                      (BadRequest ''Image and tap coordinates required'', [ReadBody], st1))))"

section \<open>Notions used in the statements\<close>

text \<open>The store holds, for \<open>ident\<close>, an entry of the window that ends at \<open>r\<close>.\<close>

definition window_is :: "string \<Rightarrow> int \<Rightarrow> rateLimitStore \<Rightarrow> bool" where
  "window_is ident r st = (case map_of st ident of None \<Rightarrow> False | Some e \<Rightarrow> resetAt e = r)"

text \<open>\<open>a <= b\<close> on possibly non-finite values, and the real behind a finite one.\<close>

fun num_le :: "jsnum \<Rightarrow> jsnum \<Rightarrow> bool" where
  "num_le (Num a) (Num b) = (a \<le> b)"
| "num_le NaN b = False"
| "num_le a NaN = False"
| "num_le NegInf b = True"
| "num_le a PosInf = True"
| "num_le PosInf b = False"
| "num_le a NegInf = False"

fun num_val :: "jsnum \<Rightarrow> real" where
  "num_val (Num v) = v"
| "num_val other = 0"

fun is_finite :: "jsnum \<Rightarrow> bool" where
  "is_finite (Num v) = True"
| "is_finite other = False"

text \<open>A number of the interval \<open>[0, 1]\<close>.\<close>

fun in_unit :: "jsnum \<Rightarrow> bool" where
  "in_unit (Num v) = (0 \<le> v \<and> v \<le> 1)"
| "in_unit other = False"

text \<open>A latitude in degrees, as a position on the globe has it.\<close>

definition validLat :: "real \<Rightarrow> bool" where
  "validLat lat = (- 90 \<le> lat \<and> lat \<le> 90)"

text \<open>Every place of a response that has a latitude has a valid one.\<close>

definition validPlaces :: "place list \<Rightarrow> bool" where
  "validPlaces rs = list_all (\<lambda>q. case place_lat q of None \<Rightarrow> True | Some la \<Rightarrow> validLat la) rs"

text \<open>
  The haversine formula, as the specification names it: the distance on a sphere of
  radius 6371000 m is \<open>2 r arcsin (sqrt a)\<close>, \<open>a\<close> being the haversine of the central angle.
\<close>

definition haversine_a :: "real \<Rightarrow> real \<Rightarrow> real \<Rightarrow> real \<Rightarrow> real" where
  "haversine_a lat1 lng1 lat2 lng2 =
     (sin ((lat2 - lat1) * pi / 180 / 2))\<^sup>2 +
     cos (lat1 * pi / 180) * cos (lat2 * pi / 180) * (sin ((lng2 - lng1) * pi / 180 / 2))\<^sup>2"

definition spec_haversine :: "real \<Rightarrow> real \<Rightarrow> real \<Rightarrow> real \<Rightarrow> real" where
  "spec_haversine lat1 lng1 lat2 lng2 =
     2 * 6371000 * arcsin (sqrt (haversine_a lat1 lng1 lat2 lng2))"

text \<open>
  The scores in the specification's words. The token-overlap ratio counts the tokens of
  the hint that occur among the tokens of the candidate, over the larger token count.
\<close>

definition spec_tokenOverlap :: "string \<Rightarrow> string \<Rightarrow> real" where
  "spec_tokenOverlap hint candidate =
     real (length (filter (\<lambda>t. t \<in> set (split_ws candidate)) (split_ws hint))) /
     real (max (length (split_ws hint)) (length (split_ws candidate)))"

definition spec_nameScore :: "(string \<Rightarrow> string) \<Rightarrow> string \<Rightarrow> string \<Rightarrow> real" where
  "spec_nameScore lc hintName candidateName =
     (let h = lc hintName; c = lc candidateName
      in if h = c then 1
         else if sublist h c \<or> sublist c h then 0.7
         else spec_tokenOverlap h c)"

definition spec_compositeA :: "real \<Rightarrow> real \<Rightarrow> real" where
  "spec_compositeA nameScore distanceMeters =
     0.7 * nameScore + 0.3 * (1 - min (distanceMeters / 2000) 1)"

definition spec_distanceScore :: "real \<Rightarrow> real" where
  "spec_distanceScore distance = 1 / (1 + distance / 50)"

definition spec_directionScore :: "real \<Rightarrow> real \<Rightarrow> real" where
  "spec_directionScore bearing directionBearing =
     (let bearingDiff = \<bar>bearing - directionBearing\<bar>
      in if bearingDiff < 45 then 1 - bearingDiff / 45 else 0)"

definition spec_typeBonus ::
  "(string \<Rightarrow> string) \<Rightarrow> string option \<Rightarrow> string list option \<Rightarrow> real" where
  "spec_typeBonus lc hintType tags =
     (case (hintType, tags) of
        (Some ty, Some ts) \<Rightarrow>
          if ty \<noteq> [] \<and> (\<exists>t \<in> set ts. sublist (lc ty) (lc t) \<or> sublist (lc t) (lc ty))
          then 0.3 else 0
      | other \<Rightarrow> 0)"

definition spec_compositeB :: "real \<Rightarrow> real \<Rightarrow> real \<Rightarrow> real" where
  "spec_compositeB distanceScore directionScore typeBonus =
     distanceScore + 0.5 * directionScore + typeBonus"

text \<open>
  What \<open>Array.prototype.sort\<close> promises for the comparator \<open>b.score - a.score\<close> when every
  score is a number: the result is ordered by descending score, and the elements of equal
  score are the same and in the same order as before (so the result is a permutation,
  and the sort is stable).
\<close>

definition sorted_stably :: "('a \<Rightarrow> jsnum) \<Rightarrow> 'a list \<Rightarrow> 'a list \<Rightarrow> bool" where
  "sorted_stably sc xs ys =
     (sorted_wrt (\<lambda>a b. num_le (sc b) (sc a)) ys \<and>
      (\<forall>k. filter (\<lambda>x. sc x = k) ys = filter (\<lambda>x. sc x = k) xs))"

text \<open>The three messages of the last fallback.\<close>

definition locationRequired :: resultBody where
  "locationRequired =
     \<lparr>title = ''Location Required'',
      subtitle = FixedText ''Please enable location permissions to get real information about places you tap on.'',
      year = None, confidence = 0.3, url = None\<rparr>"

definition apiKeyNotConfigured :: resultBody where
  "apiKeyNotConfigured =
     \<lparr>title = ''API Key Not Configured'',
      subtitle = FixedText ''Google Places API key is required. Add GOOGLE_API_KEY to your .env file.'',
      year = None, confidence = 0.3, url = None\<rparr>"

definition noInformationFound :: "real \<Rightarrow> real \<Rightarrow> resultBody" where
  "noInformationFound la lo =
     \<lparr>title = ''No Information Found'', subtitle = LocationText la lo,
      year = None, confidence = 0.3, url = None\<rparr>"

section \<open>Example data\<close>

text \<open>
  On a string of ASCII characters \<open>toLowerCase\<close> maps the letters \<open>A\<close> to \<open>Z\<close> to
  \<open>a\<close> to \<open>z\<close> and leaves the rest. The strings of the examples are such strings, and
  the worlds of the examples have this function.
\<close>

definition lower_char :: "char \<Rightarrow> char" where
  "lower_char c =
     (case map_of (zip ''ABCDEFGHIJKLMNOPQRSTUVWXYZ'' ''abcdefghijklmnopqrstuvwxyz'') c of
        None \<Rightarrow> c
      | Some l \<Rightarrow> l)"

definition asciiLower :: "string \<Rightarrow> string" where
  "asciiLower s = map lower_char s"

definition ferry_building :: place where
  "ferry_building =
     \<lparr>place_name = ''Ferry Building'', place_lat = Some 38, place_lng = Some (- 122),
      place_id = ''ferry-building'', place_types = Some [''tourist_attraction'', ''point_of_interest''],
      place_rating = Some 4.6, place_url = None, place_website = None\<rparr>"

definition ferry_plaza :: place where
  "ferry_plaza =
     \<lparr>place_name = ''Ferry Plaza'', place_lat = Some 38, place_lng = Some (- 122),
      place_id = ''ferry-plaza'', place_types = Some [''park''],
      place_rating = None, place_url = None, place_website = None\<rparr>"

text \<open>
  Two kiosks on the meridian of a device at \<open>(38, -122)\<close>, a thousandth of a degree to
  the north and to the south of it, which is \<open>kiosk_distance\<close> metres; and a cafe on the
  equator.
\<close>

definition north_kiosk :: place where
  "north_kiosk =
     \<lparr>place_name = ''North Kiosk'', place_lat = Some (38001 / 1000), place_lng = Some (- 122),
      place_id = ''north-kiosk'', place_types = Some [''store''],
      place_rating = None, place_url = None, place_website = None\<rparr>"


definition kiosk_distance :: real where
  "kiosk_distance = 6371000 * (1 / 1000 * pi / 180)"

definition equator_cafe :: place where
  "equator_cafe =
     \<lparr>place_name = ''Equator Cafe'', place_lat = Some 0, place_lng = Some 10,
      place_id = ''equator-cafe'', place_types = Some [''cafe''],
      place_rating = None, place_url = None, place_website = None\<rparr>"

definition full_store :: rateLimitStore where
  "full_store = [(''10.0.0.7'', \<lparr>count = 60, resetAt = 60000\<rparr>)]"

definition denied_request :: request where
  "denied_request = \<lparr>x_forwarded_for = Some ''10.0.0.7, 10.0.0.1'', x_real_ip = None, body = None\<rparr>"

text \<open>A world in which the key is configured and every collaborator comes back empty.\<close>

definition quiet_world :: world where
  "quiet_world =
     \<lparr>toLowerCase = asciiLower,
      hasApiKey = True,
      gemini = (\<lambda>d. GeminiNotOk),
      jsonParse = (\<lambda>t. None),
      matchName = (\<lambda>t. None),
      matchType = (\<lambda>t. None),
      matchDescription = (\<lambda>t. None),
      textSearch = (\<lambda>q. NotOk),
      nearbySearch = (\<lambda>r. Fetched \<lparr>status = ''ZERO_RESULTS'', results = Some []\<rparr>),
      placeDetails = (\<lambda>i. NotOk),
      geoNow = 0\<rparr>"

text \<open>The same world without the key.\<close>

definition keyless_world :: world where
  "keyless_world = quiet_world\<lparr>hasApiKey := False\<rparr>"

text \<open>A world in which the vision model names the Ferry Building and the text search finds it.\<close>

definition ferry_text :: string where
  \<open>ferry_text = ''{"name": "Ferry Building", "type": "landmark"}''\<close>

definition ferry_vision :: visionResult where
  "ferry_vision =
     \<lparr>v_name = Some ''Ferry Building'', v_type = Some ''landmark'', v_description = None,
      v_details = None, v_year = None, v_architecturalStyle = None, v_significance = None\<rparr>"

definition ferry_details :: detailedPlace where
  "ferry_details =
     \<lparr>d_name = Some ''Ferry Building'', d_types = Some [''tourist_attraction''],
      d_url = Some ''https://maps.google.com/?cid=1'', d_website = None\<rparr>"

definition ferry_world :: world where
  "ferry_world =
     quiet_world
       \<lparr>gemini := (\<lambda>d. GeminiText (Some ferry_text)),
        jsonParse := (\<lambda>t. if t = ferry_text then Some ferry_vision else None),
        textSearch := (\<lambda>q. if q = NameOnly ''Ferry Building''
                            then Fetched \<lparr>status = ''OK'', results = Some [ferry_plaza, ferry_building]\<rparr>
                            else NotOk),
        placeDetails := (\<lambda>i. if i = ''ferry-building'' then Fetched (Some ferry_details) else NotOk)\<rparr>"



text \<open>
  A world in which every search finds the cafe on the equator, and a hint that names it.
\<close>

definition equator_world :: world where
  "equator_world =
     quiet_world
       \<lparr>textSearch := (\<lambda>q. Fetched \<lparr>status = ''OK'', results = Some [equator_cafe]\<rparr>),
        nearbySearch := (\<lambda>r. Fetched \<lparr>status = ''OK'', results = Some [equator_cafe]\<rparr>)\<rparr>"

definition equator_vision :: visionResult where
  "equator_vision = ferry_vision\<lparr>v_name := Some ''Equator Cafe'', v_type := Some ''cafe''\<rparr>"

text \<open>
  Two answers of the vision model that are not JSON, one without braces and one with,
  and a world that gives such an answer; \<open>JSON.parse\<close> fails on it, and the patterns
  find a name and a type.
\<close>

definition unbraced_text :: string where
  "unbraced_text = ''name: Ferry Building, type: landmark''"

definition braced_text :: string where
  "braced_text = ''{name: Ferry Building, type: landmark}''"

definition prose_world :: "string \<Rightarrow> world" where
  "prose_world text =
     quiet_world
       \<lparr>gemini := (\<lambda>d. GeminiText (Some text)),
        matchName := (\<lambda>t. Some ''Ferry Building''),
        matchType := (\<lambda>t. Some ''landmark'')\<rparr>"

text \<open>A request with a frame, a tap at the centre and a location; a body on the equator.\<close>

definition tap_request :: request where
  "tap_request =
     \<lparr>x_forwarded_for = None, x_real_ip = Some ''10.0.0.9'',
      body = Some \<lparr>image = Some ''frame'', tapX = Some 0.5, tapY = Some 0.5,
                    latitude = Some 38, longitude = Some (- 122)\<rparr>\<rparr>"

definition tap_body :: tapBody where
  "tap_body = \<lparr>image = Some ''frame'', tapX = Some 0.5, tapY = Some 0.5,
                latitude = Some 38, longitude = Some (- 122)\<rparr>"

definition equator_body :: tapBody where
  "equator_body = \<lparr>image = Some ''frame'', tapX = Some 0.5, tapY = Some 0.5,
                    latitude = Some 0, longitude = Some (- 122)\<rparr>"

section \<open>Properties of vectorMath and the smoother\<close>

lemma in_unit_cases:
  assumes "in_unit n"
  obtains v where "n = Num v" "0 \<le> v" "v \<le> 1"
  using assms by (cases n) auto

lemma ema_loop_bounds:
  "in_unit e \<Longrightarrow> list_all in_unit hs \<Longrightarrow> in_unit (ema_loop e hs)"
proof (induction hs arbitrary: e)
  case Nil
  then show ?case by simp
next
  case (Cons h hs)
  obtain x where x: "e = Num x" "0 \<le> x" "x \<le> 1"
    using Cons.prems(1) by (rule in_unit_cases)
  obtain y where y: "h = Num y" "0 \<le> y" "y \<le> 1"
    using Cons.prems(2) by (auto elim: in_unit_cases)
  have "in_unit (num_add (num_mulc h alpha) (num_mulc e (1 - alpha)))"
    using x y by (simp add: alpha_def)
  then show ?case using Cons by simp
qed

lemma exponentialMovingAverage_bounds:
  assumes "list_all in_unit history"
  shows "in_unit (exponentialMovingAverage history)"
proof (cases history)
  case Nil
  then show ?thesis by (simp add: exponentialMovingAverage_def)
next
  case (Cons h hs)
  then have "exponentialMovingAverage history = ema_loop h hs"
    by (cases hs) (simp_all add: exponentialMovingAverage_def)
  then show ?thesis using assms Cons ema_loop_bounds [of h hs] by simp
qed

lemma clamp_in_unit:
  "v \<noteq> NaN \<Longrightarrow> in_unit (js_max minConfidence (js_min maxConfidence v))"
  by (cases v) (simp_all add: minConfidence_def maxConfidence_def)

lemma smooth_history_bounds:
  assumes "list_all in_unit history" "v \<noteq> NaN"
  shows "list_all in_unit (snd (smooth v history))"
proof -
  let ?c = "js_max minConfidence (js_min maxConfidence v)"
  have p: "list_all in_unit (history @ [?c])" using assms clamp_in_unit by simp
  then have "list_all in_unit (tl (history @ [?c]))"
    by (cases "history @ [?c]") simp_all
  then show ?thesis using p by (simp add: smooth_def Let_def)
qed

lemma smooth_value_bounds:
  assumes "list_all in_unit history" "v \<noteq> NaN"
  shows "in_unit (fst (smooth v history))"
proof -
  have "fst (smooth v history) = exponentialMovingAverage (snd (smooth v history))"
    by (simp add: smooth_def Let_def)
  then show ?thesis
    using exponentialMovingAverage_bounds [OF smooth_history_bounds [OF assms]] by simp
qed

lemma smooth_run_bounds:
  "list_all in_unit history \<Longrightarrow> NaN \<notin> set vs \<Longrightarrow>
   list_all in_unit (smooth_run history vs)"
proof (induction vs arbitrary: history)
  case Nil
  then show ?case by simp
next
  case (Cons v vs)
  have v: "v \<noteq> NaN" "NaN \<notin> set vs" using Cons.prems(2) by auto
  obtain r h' where s: "smooth v history = (r, h')" by (cases "smooth v history")
  have "in_unit r" using smooth_value_bounds [OF Cons.prems(1) v(1)] s by simp
  moreover have "list_all in_unit h'"
    using smooth_history_bounds [OF Cons.prems(1) v(1)] s by simp
  ultimately show ?case using Cons.IH [OF _ v(2), of h'] s by simp
qed

lemma smooth_empty: "fst (smooth v []) = js_max 0 (js_min 1 v)"
  by (simp add: smooth_def Let_def maxHistorySize_def exponentialMovingAverage_def
      minConfidence_def maxConfidence_def)

text \<open>
  C7, as amended. On an empty history \<open>smooth(v)\<close> returns \<open>v\<close> itself for every \<open>v\<close> in \<open>[0, 1]\<close>, and
  for every sequence of inputs fed to a fresh smoother none of which is \<open>NaN\<close>, whatever
  their range and the infinite ones included, every value returned lies in \<open>[0, 1]\<close>.
\<close>

theorem smooth_identity_and_range:
  "(0 \<le> v \<and> v \<le> 1 \<longrightarrow> fst (smooth (Num v) []) = Num v) \<and>
   (NaN \<notin> set vs \<longrightarrow> (\<forall>r \<in> set (smooth_run [] vs). in_unit r))"
proof (intro conjI impI)
  assume "0 \<le> v \<and> v \<le> 1"
  then show "fst (smooth (Num v) []) = Num v"
    by (simp add: smooth_empty)
next
  assume "NaN \<notin> set vs"
  then show "\<forall>r \<in> set (smooth_run [] vs). in_unit r"
    using smooth_run_bounds [of "[]" vs] by (simp add: list_all_iff)
qed

theorem smooth_identity_and_range_witness:
  "(0::real) \<le> 0.8 \<and> (0.8::real) \<le> 1 \<and> fst (smooth (Num 0.8) []) = Num 0.8 \<and>
   NaN \<notin> set [Num (- 0.5), Num 1.5, PosInf, NegInf, Num 0.5] \<and>
   smooth_run [] [Num (- 0.5), Num 1.5, PosInf, NegInf, Num 0.5] =
     [Num 0, Num 0.5, Num 0.75, Num 0.375, Num 0.4375] \<and>
   list_all in_unit (smooth_run [] [Num (- 0.5), Num 1.5, PosInf, NegInf, Num 0.5])"
proof -
  have run: "smooth_run [] [Num (- 0.5), Num 1.5, PosInf, NegInf, Num 0.5] =
     [Num 0, Num 0.5, Num 0.75, Num 0.375, Num 0.4375]"
    by (simp add: smooth_def Let_def maxHistorySize_def exponentialMovingAverage_def
        minConfidence_def maxConfidence_def alpha_def)
  have "fst (smooth (Num 0.8) []) = Num 0.8 \<and>
        (\<forall>r \<in> set (smooth_run [] [Num (- 0.5), Num 1.5, PosInf, NegInf, Num 0.5]). in_unit r)"
    using smooth_identity_and_range [of "0.8" "[Num (- 0.5), Num 1.5, PosInf, NegInf, Num 0.5]"]
    by simp
  then show ?thesis using run by (simp add: list_all_iff)
qed

text \<open>
  The claim without the exception does not hold: \<open>Math.min(1, NaN)\<close> and
  \<open>Math.max(0, NaN)\<close> are \<open>NaN\<close>, so \<open>smooth(NaN)\<close> stores and returns \<open>NaN\<close>, and the
  value stays in the history: the next call, with an argument in the range, returns
  \<open>NaN\<close> as well.
\<close>

theorem smooth_nan_counterexample:
  "fst (smooth NaN []) = NaN \<and> \<not> in_unit (fst (smooth NaN [])) \<and>
   smooth_run [] [NaN, Num 0.5] = [NaN, NaN]"
  by (simp add: smooth_def Let_def maxHistorySize_def exponentialMovingAverage_def
      minConfidence_def maxConfidence_def alpha_def)

text \<open>
  C9. \<open>normalize2D\<close> of the zero vector is the zero vector, and \<open>angleBetween3D\<close> of two
  vectors of which at least one has magnitude zero is \<open>0\<close>; neither result is \<open>NaN\<close>.
\<close>

theorem geometry_zero_vectors:
  "normalize2D \<lparr>vx = 0, vy = 0\<rparr> = \<lparr>vx = Num 0, vy = Num 0\<rparr> \<and>
   (sqrt (wx a * wx a + wy a * wy a + wz a * wz a) = 0 \<or>
    sqrt (wx b * wx b + wy b * wy b + wz b * wz b) = 0
      \<longrightarrow> angleBetween3D a b = Num 0 \<and> angleBetween3D a b \<noteq> NaN)"
proof -
  have sq: "\<not> p * p + q * q + r * r < 0" for p q r :: real
    by (simp add: not_less)
  show ?thesis
    by (simp add: normalize2D_def angleBetween3D_def js_sqrt_def sq Let_def)
qed

theorem geometry_zero_vectors_witness:
  "normalize2D \<lparr>vx = 0, vy = 0\<rparr> = \<lparr>vx = Num 0, vy = Num 0\<rparr> \<and>
   sqrt (0 * 0 + 0 * 0 + 0 * 0 :: real) = 0 \<and>
   angleBetween3D \<lparr>wx = 0, wy = 0, wz = 0\<rparr> \<lparr>wx = 1, wy = 0, wz = 0\<rparr> = Num 0"
  using geometry_zero_vectors [of "\<lparr>wx = 0, wy = 0, wz = 0\<rparr>" "\<lparr>wx = 1, wy = 0, wz = 0\<rparr>"]
  by simp

lemma normalize2D_finite:
  "is_finite (vx (normalize2D v)) \<and> is_finite (vy (normalize2D v))"
proof -
  have "\<not> vx v * vx v + vy v * vy v < 0" by (simp add: not_less)
  then show ?thesis by (simp add: normalize2D_def js_sqrt_def js_div_def)
qed

lemma angleBetween3D_finite: "is_finite (angleBetween3D a b)"
proof -
  have sq: "\<not> p * p + q * q + r * r < 0" for p q r :: real
    by (simp add: not_less)
  show ?thesis
    by (simp add: angleBetween3D_def js_sqrt_def sq Let_def js_div_def)
qed

section \<open>Properties of the rate limiter\<close>

lemma map_of_filter_distinct:
  "distinct (map fst st) \<Longrightarrow>
   map_of (filter (\<lambda>(k, e). P e) st) k =
     (case map_of st k of None \<Rightarrow> None | Some e \<Rightarrow> if P e then Some e else None)"
proof (induction st)
  case Nil
  then show ?case by simp
next
  case (Cons p st)
  obtain k' e' where p: "p = (k', e')" by (cases p)
  have nk: "map_of st k' = None" using Cons.prems p
    by (simp add: map_of_eq_None_iff)
  have nf: "map_of (filter (\<lambda>(k, e). P e) st) k' = None"
    using Cons.prems p by (auto simp: map_of_eq_None_iff)
  show ?case using Cons p nk nf by (auto split: option.splits)
qed

lemma distinct_cleanup:
  "distinct (map fst st) \<Longrightarrow> distinct (map fst (cleanupExpiredEntries now st))"
  by (simp add: cleanupExpiredEntries_def distinct_map_filter)

lemma distinct_checkRateLimit:
  "distinct (map fst st) \<Longrightarrow> distinct (map fst (snd (checkRateLimit now i st)))"
  by (auto simp: checkRateLimit_def newWindow_def Let_def distinct_cleanup distinct_update
      split: option.splits)

lemma map_of_cleanup:
  "distinct (map fst st) \<Longrightarrow>
   map_of (cleanupExpiredEntries now st) k =
     (case map_of st k of None \<Rightarrow> None | Some e \<Rightarrow> if now < resetAt e then Some e else None)"
  unfolding cleanupExpiredEntries_def
  using map_of_filter_distinct [of st "\<lambda>e. \<not> now \<ge> resetAt e" k]
  by (auto split: option.splits)

lemma map_of_newWindow_same:
  "distinct (map fst st) \<Longrightarrow>
   map_of (snd (newWindow now i st)) i = Some \<lparr>count = 1, resetAt = now + RATE_LIMIT_WINDOW_MS\<rparr>"
  by (simp add: newWindow_def Let_def map_of_cleanup distinct_update update_conv'
      RATE_LIMIT_WINDOW_MS_def)

lemma map_of_newWindow_other:
  "distinct (map fst st) \<Longrightarrow> i \<noteq> k \<Longrightarrow>
   map_of (snd (newWindow now i st)) k =
     (if length (AList.update i \<lparr>count = 1, resetAt = now + RATE_LIMIT_WINDOW_MS\<rparr> st) > 1000
      then (case map_of st k of None \<Rightarrow> None | Some e \<Rightarrow> if now < resetAt e then Some e else None)
      else map_of st k)"
  by (simp add: newWindow_def Let_def map_of_cleanup distinct_update update_conv')

lemma checkRateLimit_other:
  assumes "distinct (map fst st)" "i \<noteq> k"
  shows "map_of (snd (checkRateLimit now i st)) k = map_of st k \<or>
         (map_of (snd (checkRateLimit now i st)) k = None \<and>
          (\<exists>e. map_of st k = Some e \<and> resetAt e \<le> now))"
  using assms
  by (auto simp: checkRateLimit_def map_of_newWindow_other Let_def update_conv'
      split: option.splits)


lemma checkRateLimit_same_cases:
  assumes "distinct (map fst st)"
  shows "(case map_of st i of
            None \<Rightarrow> fst (checkRateLimit now i st) =
                      \<lparr>allowed = True, remaining = 59, result_resetAt = now + 60000\<rparr> \<and>
                    map_of (snd (checkRateLimit now i st)) i = Some \<lparr>count = 1, resetAt = now + 60000\<rparr>
          | Some e \<Rightarrow>
              if resetAt e \<le> now then
                fst (checkRateLimit now i st) =
                      \<lparr>allowed = True, remaining = 59, result_resetAt = now + 60000\<rparr> \<and>
                map_of (snd (checkRateLimit now i st)) i = Some \<lparr>count = 1, resetAt = now + 60000\<rparr>
              else if 60 \<le> count e then
                checkRateLimit now i st =
                  (\<lparr>allowed = False, remaining = 0, result_resetAt = resetAt e\<rparr>, st)
              else
                fst (checkRateLimit now i st) =
                  \<lparr>allowed = True, remaining = 60 - (count e + 1), result_resetAt = resetAt e\<rparr> \<and>
                map_of (snd (checkRateLimit now i st)) i = Some (e\<lparr>count := count e + 1\<rparr>))"
proof (cases "map_of st i")
  case None
  then show ?thesis
    using map_of_newWindow_same [OF assms, of now i]
    by (simp add: checkRateLimit_def newWindow_def Let_def RATE_LIMIT_MAX_REQUESTS_def
        RATE_LIMIT_WINDOW_MS_def)
next
  case (Some e)
  then show ?thesis
    using map_of_newWindow_same [OF assms, of now i]
    by (simp add: checkRateLimit_def newWindow_def Let_def RATE_LIMIT_MAX_REQUESTS_def
        RATE_LIMIT_WINDOW_MS_def update_conv')
qed

lemma granted_closed:
  "distinct (map fst st) \<Longrightarrow> \<not> window_is ident r st \<Longrightarrow>
   \<forall>c \<in> set calls. fst c \<noteq> r - 60000 \<Longrightarrow> granted ident r st calls = 0"
proof (induction calls arbitrary: st)
  case Nil
  then show ?case by simp
next
  case (Cons c calls)
  obtain now i where c: "c = (now, i)" by (cases c)
  obtain res st' where step: "checkRateLimit now i st = (res, st')"
    by (cases "checkRateLimit now i st")
  have d': "distinct (map fst st')"
    using distinct_checkRateLimit [OF Cons.prems(1), of now i] step by simp
  have t: "now \<noteq> r - 60000" using Cons.prems(3) c by simp
  have w': "\<not> window_is ident r st'" and
       nc: "\<not> (i = ident \<and> allowed res \<and> result_resetAt res = r)"
  proof -
    show "\<not> window_is ident r st'"
    proof (cases "i = ident")
      case True
      then show ?thesis
        using checkRateLimit_same_cases [OF Cons.prems(1), where i = i and now = now] step Cons.prems(2) t
        by (auto simp: window_is_def split: option.splits if_splits)
    next
      case False
      then show ?thesis
        using checkRateLimit_other [OF Cons.prems(1) False, of now] step Cons.prems(2)
        by (auto simp: window_is_def split: option.splits)
    qed
    show "\<not> (i = ident \<and> allowed res \<and> result_resetAt res = r)"
      using checkRateLimit_same_cases [OF Cons.prems(1), where i = i and now = now] step Cons.prems(2) t
      by (auto simp: window_is_def split: option.splits if_splits)
  qed
  have "granted ident r st' calls = 0"
    using Cons.IH [OF d' w'] Cons.prems(3) by simp
  then show ?case using c step nc by auto
qed

lemma granted_open:
  "distinct (map fst st) \<Longrightarrow> map_of st ident = Some e \<Longrightarrow> resetAt e = r \<Longrightarrow>
   sorted (map fst calls) \<Longrightarrow>
   int (granted ident r st calls) \<le> max 0 (60 - count e)"
proof (induction calls arbitrary: st e)
  case Nil
  then show ?case by simp
next
  case (Cons c calls)
  obtain now i where c: "c = (now, i)" by (cases c)
  obtain res st' where step: "checkRateLimit now i st = (res, st')"
    by (cases "checkRateLimit now i st")
  have d': "distinct (map fst st')"
    using distinct_checkRateLimit [OF Cons.prems(1), of now i] step by simp
  have srt: "sorted (map fst calls)" and later: "\<forall>c' \<in> set calls. now \<le> fst c'"
    using Cons.prems(4) c by auto
  have closed: "granted ident r st' calls = 0" if "\<not> window_is ident r st'" "r \<le> now"
  proof -
    have "\<forall>c' \<in> set calls. fst c' \<noteq> r - 60000" using later that(2) by fastforce
    then show ?thesis using granted_closed [OF d' that(1)] by simp
  qed
  show ?case
  proof (cases "i = ident")
    case False
    have nc: "granted ident r st (c # calls) = granted ident r st' calls"
      using c step False by simp
    from checkRateLimit_other [OF Cons.prems(1) False, of now] step
    consider (same) "map_of st' ident = Some e"
      | (gone) "map_of st' ident = None" "resetAt e \<le> now"
      using Cons.prems(2) by auto
    then show ?thesis
    proof cases
      case same
      then show ?thesis using Cons.IH [OF d' same Cons.prems(3) srt] nc by simp
    next
      case gone
      then have "granted ident r st' calls = 0"
        using closed Cons.prems(3) by (simp add: window_is_def)
      then show ?thesis using nc by simp
    qed
  next
    case True
    note same = checkRateLimit_same_cases [OF Cons.prems(1), where i = i and now = now]
    consider (expired) "resetAt e \<le> now"
      | (full) "now < resetAt e" "60 \<le> count e"
      | (room) "now < resetAt e" "count e < 60"
      by linarith
    then show ?thesis
    proof cases
      case expired
      have "\<not> window_is ident r st'" and "\<not> (allowed res \<and> result_resetAt res = r)"
        using same step True Cons.prems(2,3) expired by (auto simp: window_is_def)
      then show ?thesis using closed expired Cons.prems(3) c step by auto
    next
      case full
      have "st' = st" "\<not> allowed res"
        using same step True Cons.prems(2) full by auto
      then show ?thesis
        using Cons.IH [OF Cons.prems(1,2,3) srt] c step by simp
    next
      case room
      have e': "map_of st' ident = Some (e\<lparr>count := count e + 1\<rparr>)"
        using same step True Cons.prems(2) room by auto
      have "int (granted ident r st' calls) \<le> max 0 (60 - (count e + 1))"
        using Cons.IH [OF d' e' _ srt] Cons.prems(3) by simp
      then show ?thesis using c step room by (auto split: if_splits)
    qed
  qed
qed

lemma granted_any:
  "distinct (map fst st) \<Longrightarrow> \<not> window_is ident r st \<Longrightarrow> sorted (map fst calls) \<Longrightarrow>
   granted ident r st calls \<le> 60"
proof (induction calls arbitrary: st)
  case Nil
  then show ?case by simp
next
  case (Cons c calls)
  obtain now i where c: "c = (now, i)" by (cases c)
  obtain res st' where step: "checkRateLimit now i st = (res, st')"
    by (cases "checkRateLimit now i st")
  have d': "distinct (map fst st')"
    using distinct_checkRateLimit [OF Cons.prems(1), of now i] step by simp
  have srt: "sorted (map fst calls)" using Cons.prems(3) by simp
  show ?case
  proof (cases "window_is ident r st'")
    case False
    have "\<not> (i = ident \<and> allowed res \<and> result_resetAt res = r)"
      using checkRateLimit_same_cases [OF Cons.prems(1), where i = i and now = now] step
        Cons.prems(2) False
      by (auto simp: window_is_def split: option.splits if_splits)
    then show ?thesis using Cons.IH [OF d' False srt] c step by auto
  next
    case True
    then obtain e' where e': "map_of st' ident = Some e'" "resetAt e' = r"
      by (auto simp: window_is_def split: option.splits)
    have i: "i = ident"
      using checkRateLimit_other [OF Cons.prems(1), of i ident now] step Cons.prems(2) True
      by (auto simp: window_is_def split: option.splits)
    have "count e' = 1"
      using checkRateLimit_same_cases [OF Cons.prems(1), where i = i and now = now] step
        Cons.prems(2) e' i
      by (auto simp: window_is_def split: option.splits if_splits)
    then have "int (granted ident r st' calls) \<le> 59"
      using granted_open [OF d' e' srt] by simp
    then show ?thesis using c step by (auto split: if_splits)
  qed
qed

lemma granted_log:
  "granted ident r st calls =
   length (filter (\<lambda>(now, i, res). i = ident \<and> allowed res \<and> result_resetAt res = r)
             (rl_log st calls))"
proof (induction calls arbitrary: st)
  case Nil
  then show ?case by simp
next
  case (Cons c calls)
  obtain now i where c: "c = (now, i)" by (cases c)
  obtain res st' where step: "checkRateLimit now i st = (res, st')"
    by (cases "checkRateLimit now i st")
  show ?case using Cons.IH [of st'] c step by simp
qed

lemma set_update_subset: "set (AList.update k v al) \<subseteq> insert (k, v) (set al)"
  by (induction al) auto

lemma checkRateLimit_entries:
  assumes "(k, e) \<in> set (snd (checkRateLimit now i st))"
  shows "resetAt e = now + 60000 \<or> (\<exists>k0 e0. (k0, e0) \<in> set st \<and> resetAt e = resetAt e0)"
proof -
  have u: "(k, e) \<in> set (AList.update i v st) \<Longrightarrow> (k, e) \<in> set st \<or> e = v" for v
    using set_update_subset [of i v st] by auto
  show ?thesis
    using assms
    by (auto simp: checkRateLimit_def newWindow_def cleanupExpiredEntries_def Let_def
        RATE_LIMIT_WINDOW_MS_def split: option.splits if_splits dest!: u map_of_SomeD)
       blast+
qed

lemma checkRateLimit_allowed_window:
  assumes "\<forall>(k, e) \<in> set st. resetAt e \<le> t0 + 60000" "t0 \<le> now"
    "allowed (fst (checkRateLimit now i st))"
  shows "result_resetAt (fst (checkRateLimit now i st)) - 60000 \<le> now \<and>
         now < result_resetAt (fst (checkRateLimit now i st))"
proof (cases "map_of st i")
  case None
  then show ?thesis
    by (simp add: checkRateLimit_def newWindow_def Let_def RATE_LIMIT_WINDOW_MS_def)
next
  case (Some e)
  then have "(i, e) \<in> set st" by (rule map_of_SomeD)
  then have "resetAt e \<le> t0 + 60000" using assms(1) by auto
  then show ?thesis
    using Some assms(2,3)
    by (auto simp: checkRateLimit_def newWindow_def Let_def RATE_LIMIT_WINDOW_MS_def
        split: if_splits)
qed

lemma rl_log_window:
  "\<forall>(k, e) \<in> set st. resetAt e \<le> t0 + 60000 \<Longrightarrow> \<forall>c \<in> set calls. t0 \<le> fst c \<Longrightarrow>
   sorted (map fst calls) \<Longrightarrow>
   \<forall>(now, i, res) \<in> set (rl_log st calls).
      allowed res \<longrightarrow> result_resetAt res - 60000 \<le> now \<and> now < result_resetAt res"
proof (induction calls arbitrary: st t0)
  case Nil
  then show ?case by simp
next
  case (Cons c calls)
  obtain now i where c: "c = (now, i)" by (cases c)
  obtain res st' where step: "checkRateLimit now i st = (res, st')"
    by (cases "checkRateLimit now i st")
  have t: "t0 \<le> now" using Cons.prems(2) c by simp
  have here: "allowed res \<longrightarrow> result_resetAt res - 60000 \<le> now \<and> now < result_resetAt res"
    using checkRateLimit_allowed_window [OF Cons.prems(1) t, of i] step by simp
  have inv: "\<forall>(k, e) \<in> set st'. resetAt e \<le> now + 60000"
  proof -
    have "resetAt e \<le> now + 60000" if "(k, e) \<in> set st'" for k e
    proof -
      from that checkRateLimit_entries [of k e now i st] step
      consider "resetAt e = now + 60000"
        | k0 e0 where "(k0, e0) \<in> set st" "resetAt e = resetAt e0"
        by auto
      then show ?thesis using Cons.prems(1) t by cases auto
    qed
    then show ?thesis by auto
  qed
  have later: "\<forall>c' \<in> set calls. now \<le> fst c'" and srt: "sorted (map fst calls)"
    using Cons.prems(3) c by auto
  show ?case using Cons.IH [OF inv later srt] here c step by simp
qed

text \<open>
  C6. From the empty store and with a clock that does not run backwards, at most 60 of
  the calls made for one identifier are allowed in one window (the allowed calls that
  report the same \<open>resetAt\<close>), and every allowed call falls into the 60 seconds that end
  at the \<open>resetAt\<close> it reports. Once the count of the current window has reached the
  limit, a call in that window is denied with \<open>remaining = 0\<close> and the window's \<open>resetAt\<close>,
  and the store stays as it is. A denied request to tap-context is answered with the 429
  response, and nothing has been read or called.
\<close>

theorem rate_limit_window:
  "(sorted (map fst calls) \<longrightarrow>
      length (filter (\<lambda>(now, i, res). i = ident \<and> allowed res \<and> result_resetAt res = r)
                (rl_log [] calls)) \<le> 60 \<and>
      (\<forall>(now, i, res) \<in> set (rl_log [] calls).
         allowed res \<longrightarrow>
           result_resetAt res - RATE_LIMIT_WINDOW_MS \<le> now \<and> now < result_resetAt res)) \<and>
   (map_of st ident = Some e \<and> RATE_LIMIT_MAX_REQUESTS \<le> count e \<and> now < resetAt e \<longrightarrow>
      checkRateLimit now ident st =
        (\<lparr>allowed = False, remaining = 0, result_resetAt = resetAt e\<rparr>, st)) \<and>
   (\<not> allowed (fst (checkRateLimit now (getClientIdentifier req) st)) \<longrightarrow>
      POST now st req w =
        (RateLimited (result_resetAt (fst (checkRateLimit now (getClientIdentifier req) st))), [],
         snd (checkRateLimit now (getClientIdentifier req) st)))"
proof (intro conjI impI)
  assume "sorted (map fst calls)"
  then show "length (filter (\<lambda>(now, i, res). i = ident \<and> allowed res \<and> result_resetAt res = r)
                (rl_log [] calls)) \<le> 60"
    using granted_any [of "[]" ident r calls] by (simp add: window_is_def granted_log)
next
  assume srt: "sorted (map fst calls)"
  show "\<forall>(now, i, res) \<in> set (rl_log [] calls).
         allowed res \<longrightarrow>
           result_resetAt res - RATE_LIMIT_WINDOW_MS \<le> now \<and> now < result_resetAt res"
  proof (cases calls)
    case Nil
    then show ?thesis by simp
  next
    case (Cons c cs)
    then have "\<forall>c' \<in> set calls. fst c \<le> fst c'" using srt by auto
    then show ?thesis
      using rl_log_window [of "[]" "fst c" calls] srt by (simp add: RATE_LIMIT_WINDOW_MS_def)
  qed
next
  assume "map_of st ident = Some e \<and> RATE_LIMIT_MAX_REQUESTS \<le> count e \<and> now < resetAt e"
  then show "checkRateLimit now ident st =
        (\<lparr>allowed = False, remaining = 0, result_resetAt = resetAt e\<rparr>, st)"
    by (simp add: checkRateLimit_def)
next
  assume "\<not> allowed (fst (checkRateLimit now (getClientIdentifier req) st))"
  then show "POST now st req w =
        (RateLimited (result_resetAt (fst (checkRateLimit now (getClientIdentifier req) st))), [],
         snd (checkRateLimit now (getClientIdentifier req) st))"
    by (cases "checkRateLimit now (getClientIdentifier req) st") (simp add: POST_def Let_def)
qed

theorem rate_limit_window_witness:
  "sorted (map fst [(0::int, ''10.0.0.7''), (5, ''10.0.0.7'')]) \<and>
   rl_log [] [(0, ''10.0.0.7''), (5, ''10.0.0.7'')] =
     [(0, ''10.0.0.7'', \<lparr>allowed = True, remaining = 59, result_resetAt = 60000\<rparr>),
      (5, ''10.0.0.7'', \<lparr>allowed = True, remaining = 58, result_resetAt = 60000\<rparr>)] \<and>
   length (filter (\<lambda>(now, i, res). i = ''10.0.0.7'' \<and> allowed res \<and> result_resetAt res = 60000)
             (rl_log [] [(0, ''10.0.0.7''), (5, ''10.0.0.7'')])) \<le> 60 \<and>
   map_of full_store ''10.0.0.7'' = Some \<lparr>count = 60, resetAt = 60000\<rparr> \<and>
   checkRateLimit 100 ''10.0.0.7'' full_store =
     (\<lparr>allowed = False, remaining = 0, result_resetAt = 60000\<rparr>, full_store) \<and>
   POST 100 full_store denied_request quiet_world = (RateLimited 60000, [], full_store)"
proof -
  have g: "rl_log [] [(0, ''10.0.0.7''), (5, ''10.0.0.7'')] =
     [(0, ''10.0.0.7'', \<lparr>allowed = True, remaining = 59, result_resetAt = 60000\<rparr>),
      (5, ''10.0.0.7'', \<lparr>allowed = True, remaining = 58, result_resetAt = 60000\<rparr>)]"
    by (simp add: checkRateLimit_def newWindow_def Let_def RATE_LIMIT_WINDOW_MS_def
        RATE_LIMIT_MAX_REQUESTS_def)
  have m: "map_of full_store ''10.0.0.7'' = Some \<lparr>count = 60, resetAt = 60000\<rparr>"
    by (simp add: full_store_def)
  have i: "getClientIdentifier denied_request = ''10.0.0.7''"
    by (simp add: getClientIdentifier_def denied_request_def js_or_def)
  have s: "sorted (map fst [(0::int, ''10.0.0.7''), (5, ''10.0.0.7'')])" by simp
  note t = rate_limit_window [of "[(0, ''10.0.0.7''), (5, ''10.0.0.7'')]" "''10.0.0.7''" 60000
      full_store "\<lparr>count = 60, resetAt = 60000\<rparr>" 100 denied_request quiet_world]
  have l: "length (filter (\<lambda>(now, i, res). i = ''10.0.0.7'' \<and> allowed res \<and> result_resetAt res = 60000)
             (rl_log [] [(0, ''10.0.0.7''), (5, ''10.0.0.7'')])) \<le> 60"
    using t s by blast
  have c: "checkRateLimit 100 ''10.0.0.7'' full_store =
     (\<lparr>allowed = False, remaining = 0, result_resetAt = 60000\<rparr>, full_store)"
    using t m by (simp add: RATE_LIMIT_MAX_REQUESTS_def)
  have "POST 100 full_store denied_request quiet_world = (RateLimited 60000, [], full_store)"
    using t i c by simp
  then show ?thesis using g m c l s by simp
qed

section \<open>Great-circle distance\<close>

lemma cos_deg_nonneg: "- 90 \<le> lat \<Longrightarrow> lat \<le> 90 \<Longrightarrow> 0 \<le> cos (lat * pi / 180)"
proof -
  assume a: "- 90 \<le> lat" "lat \<le> 90"
  have "- (pi / 2) \<le> lat * pi / 180" using a pi_gt_zero
    by (simp add: field_simps) (metis mult.commute mult_left_mono pi_ge_zero mult_minus_right)
  moreover have "lat * pi / 180 \<le> pi / 2" using a pi_gt_zero by (simp add: field_simps)
  ultimately show ?thesis by (rule cos_ge_zero)
qed

lemma cos_cos_bound: "cos p * cos q \<le> 1 - (sin ((q - p) / 2))\<^sup>2" for p q :: real
proof -
  have "2 * (cos p * cos q) = cos (q - p) + cos (q + p)"
    by (simp add: cos_add cos_diff)
  moreover have "cos (q + p) \<le> 1" by simp
  moreover have "cos (q - p) = 1 - 2 * (sin ((q - p) / 2))\<^sup>2"
  proof -
    define t where "t = (q - p) / 2"
    have "q - p = 2 * t" by (simp add: t_def)
    then have "cos (q - p) = 1 - 2 * (sin t)\<^sup>2" by (simp only: cos_double_sin)
    then show ?thesis by (simp only: t_def)
  qed
  ultimately show ?thesis by linarith
qed

lemma haversine_a_bounds:
  assumes "- 90 \<le> lat1" "lat1 \<le> 90" "- 90 \<le> lat2" "lat2 \<le> 90"
  shows "0 \<le> haversine_a lat1 lng1 lat2 lng2" "haversine_a lat1 lng1 lat2 lng2 \<le> 1"
proof -
  let ?c = "cos (lat1 * pi / 180) * cos (lat2 * pi / 180)"
  let ?s = "(sin ((lng2 - lng1) * pi / 180 / 2))\<^sup>2"
  let ?d = "(sin ((lat2 - lat1) * pi / 180 / 2))\<^sup>2"
  have c0: "0 \<le> ?c" using assms by (simp add: cos_deg_nonneg)
  have s0: "0 \<le> ?s" by simp
  have s1: "?s \<le> 1" by (simp add: abs_square_le_1)
  have "?c \<le> 1 - (sin ((lat2 * pi / 180 - lat1 * pi / 180) / 2))\<^sup>2"
    by (rule cos_cos_bound)
  moreover have "(lat2 * pi / 180 - lat1 * pi / 180) / 2 = (lat2 - lat1) * pi / 180 / 2"
    by (simp add: field_simps)
  ultimately have c1: "?c \<le> 1 - ?d" by simp
  have "?c * ?s \<le> ?c * 1" using s1 c0 by (rule mult_left_mono)
  then have cs: "?c * ?s \<le> 1 - ?d" using c1 by simp
  show "0 \<le> haversine_a lat1 lng1 lat2 lng2"
    unfolding haversine_a_def using c0 s0 by (simp add: mult_nonneg_nonneg)
  show "haversine_a lat1 lng1 lat2 lng2 \<le> 1"
    unfolding haversine_a_def using cs by simp
qed

lemma atan2_sqrt_arcsin:
  assumes "0 \<le> a" "a \<le> 1"
  shows "atan2 (sqrt a) (sqrt (1 - a)) = arcsin (sqrt a)"
proof (cases "a = 1")
  case True
  then show ?thesis by (simp add: atan2_def)
next
  case False
  then have lt: "a < 1" using assms by simp
  then have pos: "0 < sqrt (1 - a)" by simp
  have x: "- 1 < sqrt a" "sqrt a < 1"
    using assms lt by (auto intro: less_le_trans [of _ 0] simp: real_sqrt_lt_1_iff)
  have "arcsin (sqrt a) = arctan (sqrt a / sqrt (1 - (sqrt a)\<^sup>2))"
    using arcsin_arctan [OF x] .
  then show ?thesis using pos assms by (simp add: atan2_def)
qed

lemma haversine_eq:
  assumes "- 90 \<le> lat1" "lat1 \<le> 90" "- 90 \<le> lat2" "lat2 \<le> 90"
  shows "haversine lat1 lng1 lat2 lng2 = Num (spec_haversine lat1 lng1 lat2 lng2)"
proof -
  let ?a = "haversine_a lat1 lng1 lat2 lng2"
  note b = haversine_a_bounds [OF assms, of lng1 lng2]
  have a: "sin ((lat2 - lat1) * pi / 180 / 2) * sin ((lat2 - lat1) * pi / 180 / 2) +
           cos (lat1 * pi / 180) * cos (lat2 * pi / 180) * sin ((lng2 - lng1) * pi / 180 / 2) *
           sin ((lng2 - lng1) * pi / 180 / 2) = ?a"
    by (simp add: haversine_a_def power2_eq_square)
  have "haversine lat1 lng1 lat2 lng2 =
        (case (js_sqrt ?a, js_sqrt (1 - ?a)) of
           (Num s, Num t) \<Rightarrow> Num (6371000 * (2 * atan2 s t)) | other \<Rightarrow> NaN)"
    unfolding haversine_def Let_def a ..
  also have "\<dots> = Num (6371000 * (2 * atan2 (sqrt ?a) (sqrt (1 - ?a))))"
    using b by (simp add: js_sqrt_def)
  also have "\<dots> = Num (spec_haversine lat1 lng1 lat2 lng2)"
    using atan2_sqrt_arcsin [OF b] by (simp add: spec_haversine_def)
  finally show ?thesis .
qed

lemma spec_haversine_nonneg:
  assumes "- 90 \<le> lat1" "lat1 \<le> 90" "- 90 \<le> lat2" "lat2 \<le> 90"
  shows "0 \<le> spec_haversine lat1 lng1 lat2 lng2"
proof -
  note b = haversine_a_bounds [OF assms, of lng1 lng2]
  have "0 \<le> arcsin (sqrt (haversine_a lat1 lng1 lat2 lng2))"
    using b by (intro arcsin_nonneg) simp
  then show ?thesis by (simp add: spec_haversine_def)
qed




lemma deg_le_pi: "a \<le> 180 \<Longrightarrow> a * pi / 180 \<le> pi"
  by simp



lemma arcsin_abs_sin:
  assumes "\<bar>x\<bar> \<le> pi / 2"
  shows "arcsin (sqrt ((sin x)\<^sup>2)) = \<bar>x\<bar>"
proof (cases "0 \<le> x")
  case True
  then have "0 \<le> sin x" using assms by (intro sin_ge_zero) (simp_all add: abs_le_iff)
  then have "sqrt ((sin x)\<^sup>2) = sin x" by simp
  then show ?thesis using True assms by (simp add: arcsin_sin abs_le_iff)
next
  case False
  then have n: "x < 0" by simp
  then have "0 \<le> sin (- x)" using assms by (intro sin_ge_zero) (simp_all add: abs_le_iff)
  then have "sqrt ((sin x)\<^sup>2) = sin (- x)" by simp
  moreover have "arcsin (sin (- x)) = - x"
    using n assms by (intro arcsin_sin) (simp_all add: abs_le_iff)
  ultimately show ?thesis using n by simp
qed

lemma spec_haversine_meridian:
  assumes "validLat lat1" "validLat lat2"
  shows "spec_haversine lat1 lng lat2 lng = 6371000 * (\<bar>lat2 - lat1\<bar> * pi / 180)"
proof -
  define x where "x = (lat2 - lat1) * pi / 180 / 2"
  have "\<bar>lat2 - lat1\<bar> \<le> 180" using assms by (simp add: validLat_def abs_le_iff)
  then have "\<bar>lat2 - lat1\<bar> * pi / 180 \<le> pi" by (rule deg_le_pi)
  moreover have x2: "\<bar>x\<bar> = \<bar>lat2 - lat1\<bar> * pi / 180 / 2" by (simp add: x_def abs_mult)
  ultimately have xb: "\<bar>x\<bar> \<le> pi / 2" by linarith
  have a: "haversine_a lat1 lng lat2 lng = (sin x)\<^sup>2"
    by (simp add: haversine_a_def x_def)
  show ?thesis
    unfolding spec_haversine_def a arcsin_abs_sin [OF xb] x2 by simp
qed










lemma str_includes_sublist: "str_includes hay needle = sublist needle hay"
  by (induction hay) (auto simp: sublist_Cons_right)

lemma split_go_nonempty: "split_go skip inRun cur s \<noteq> []"
  by (induction skip inRun cur s rule: split_go.induct) auto

lemma split_ws_nonempty: "split_ws s \<noteq> []"
  by (simp add: split_ws_def split_go_nonempty)

lemma nameScoreOf_spec:
  "lc visionName \<noteq> [] \<Longrightarrow>
   nameScoreOf lc visionName placeName = spec_nameScore lc visionName placeName"
  by (auto simp: nameScoreOf_def spec_nameScore_def spec_tokenOverlap_def Let_def
      str_includes_sublist)

lemma set_insert_desc: "set (insert_desc sc a bs) = insert a (set bs)"
  by (induction bs) auto

lemma set_sort_desc: "set (sort_desc sc xs) = set xs"
  by (induction xs) (simp_all add: sort_desc_def set_insert_desc)

lemma insert_desc_insort:
  "is_finite (sc a) \<Longrightarrow> \<forall>b \<in> set bs. is_finite (sc b) \<Longrightarrow>
   insert_desc sc a bs = insort_key (\<lambda>x. - num_val (sc x)) a bs"
proof (induction bs)
  case Nil
  then show ?case by simp
next
  case (Cons b bs)
  obtain u v where "sc a = Num u" "sc b = Num v"
    using Cons.prems by (cases "sc a"; cases "sc b") auto
  then show ?case using Cons by (auto simp: comparator_def)
qed

lemma sort_desc_sort_key:
  "\<forall>x \<in> set xs. is_finite (sc x) \<Longrightarrow> sort_desc sc xs = sort_key (\<lambda>x. - num_val (sc x)) xs"
proof (induction xs)
  case Nil
  then show ?case by (simp add: sort_desc_def)
next
  case (Cons a xs)
  have "sort_desc sc (a # xs) = insert_desc sc a (sort_desc sc xs)"
    by (simp add: sort_desc_def)
  moreover have "\<forall>b \<in> set (sort_desc sc xs). is_finite (sc b)"
    using Cons.prems by (simp add: set_sort_desc)
  ultimately show ?case
    using Cons insert_desc_insort [of sc a "sort_desc sc xs"] by simp
qed

lemma num_val_inj: "is_finite a \<Longrightarrow> is_finite b \<Longrightarrow> (num_val a = num_val b) = (a = b)"
  by (cases a; cases b) auto

lemma num_le_val: "is_finite a \<Longrightarrow> is_finite b \<Longrightarrow> num_le a b = (num_val a \<le> num_val b)"
  by (cases a; cases b) auto

lemma sorted_stably_unique:
  assumes nums: "\<forall>x \<in> set xs. is_finite (sc x)"
      and st: "sorted_stably sc xs ys"
  shows "ys = sort_desc sc xs"
proof -
  let ?f = "\<lambda>x. - num_val (sc x)"
  have filt: "filter (\<lambda>x. sc x = k) ys = filter (\<lambda>x. sc x = k) xs" for k
    using st by (simp add: sorted_stably_def)
  have mem: "x \<in> set ys \<longleftrightarrow> x \<in> set xs" for x
  proof -
    have "x \<in> set (filter (\<lambda>y. sc y = sc x) ys) \<longleftrightarrow> x \<in> set (filter (\<lambda>y. sc y = sc x) xs)"
      by (simp only: filt)
    then show ?thesis by simp
  qed
  have cnt: "Multiset.count (mset ys) x = Multiset.count (mset xs) x" for x
  proof -
    have "Multiset.count (mset (filter (\<lambda>y. sc y = sc x) ys)) x = Multiset.count (mset (filter (\<lambda>y. sc y = sc x) xs)) x"
      by (simp only: filt)
    then show ?thesis by simp
  qed
  have ms: "mset ys = mset xs" by (rule multiset_eqI) (rule cnt)
  have numsy: "\<forall>x \<in> set ys. is_finite (sc x)" using nums mem by simp
  have keyeq: "(?f k = ?f x) = (sc x = sc k)" if "is_finite (sc k)" "is_finite (sc x)" for k x
    using num_val_inj [OF that] by auto
  have stab: "filter (\<lambda>x. ?f k = ?f x) ys = filter (\<lambda>x. ?f k = ?f x) xs" if "k \<in> set ys" for k
  proof -
    have k: "is_finite (sc k)" using that numsy by simp
    have "filter (\<lambda>x. ?f k = ?f x) ys = filter (\<lambda>x. sc x = sc k) ys"
      using numsy k keyeq by (intro filter_cong refl) blast
    also have "\<dots> = filter (\<lambda>x. sc x = sc k) xs" by (rule filt)
    also have "\<dots> = filter (\<lambda>x. ?f k = ?f x) xs"
      using nums k keyeq by (intro filter_cong refl) blast
    finally show ?thesis .
  qed
  have "sorted_wrt (\<lambda>a b. num_le (sc b) (sc a)) ys" using st by (simp add: sorted_stably_def)
  then have "sorted_wrt (\<lambda>a b. ?f a \<le> ?f b) ys"
    using numsy by (elim sorted_wrt_mono_rel [rotated]) (simp add: num_le_val)
  then have srt: "sorted (map ?f ys)" by (simp add: sorted_map)
  have "sort_key ?f xs = ys" using ms stab srt by (rule properties_for_sort_key)
  then show ?thesis using sort_desc_sort_key [OF nums] by simp
qed

lemma sort_desc_sorted_stably:
  assumes nums: "\<forall>x \<in> set xs. is_finite (sc x)"
  shows "sorted_stably sc xs (sort_desc sc xs)"
proof -
  let ?f = "\<lambda>x. - num_val (sc x)"
  have eq: "sort_desc sc xs = sort_key ?f xs" by (rule sort_desc_sort_key [OF nums])
  have "sorted (map ?f (sort_key ?f xs))" by simp
  then have "sorted_wrt (\<lambda>a b. ?f a \<le> ?f b) (sort_key ?f xs)" by (simp add: sorted_map)
  then have s: "sorted_wrt (\<lambda>a b. num_le (sc b) (sc a)) (sort_key ?f xs)"
    using nums by (elim sorted_wrt_mono_rel [rotated]) (simp add: num_le_val)
  have "filter (\<lambda>x. sc x = k) (sort_key ?f xs) = filter (\<lambda>x. sc x = k) xs" for k
  proof (cases "is_finite k")
    case True
    have "filter (\<lambda>x. sc x = k) (sort_key ?f xs) = filter (\<lambda>x. ?f x = - num_val k) (sort_key ?f xs)"
      using nums True num_val_inj by (intro filter_cong refl) auto
    also have "\<dots> = filter (\<lambda>x. ?f x = - num_val k) xs" by (rule sort_key_stable)
    also have "\<dots> = filter (\<lambda>x. sc x = k) xs"
      using nums True num_val_inj by (intro filter_cong refl) auto
    finally show ?thesis .
  next
    case False
    then have "\<forall>x \<in> set xs. sc x \<noteq> k" using nums by auto
    then show ?thesis by (simp add: filter_empty_conv [THEN iffD2] )
  qed
  then show ?thesis using s eq by (simp add: sorted_stably_def)
qed


lemma matchPlace_dropped:
  "falsy_number (place_lat p) \<or> falsy_number (place_lng p) \<Longrightarrow>
   matchPlace lc visionName userLat userLng p = None"
  by (simp add: matchPlace_def)

lemma matchPlace_kept:
  assumes "place_lat p = Some plat" "place_lng p = Some plng" "plat \<noteq> 0" "plng \<noteq> 0"
  shows "matchPlace lc visionName userLat userLng p =
           Some \<lparr>a_place = p, a_distance = haversine userLat userLng plat plng,
                 a_nameScore = nameScoreOf lc visionName (place_name p),
                 a_score = num_addc (num_mulc (num_rsub 1 (js_min 1
                              (num_divc (haversine userLat userLng plat plng) 2000))) 0.3)
                            (nameScoreOf lc visionName (place_name p) * 0.7)\<rparr>"
  using assms by (simp add: matchPlace_def Let_def)

lemma matchPlace_spec:
  assumes "lc visionName \<noteq> []" "place_lat p = Some plat" "place_lng p = Some plng"
    "plat \<noteq> 0" "plng \<noteq> 0" "validLat userLat" "validLat plat"
  shows "matchPlace lc visionName userLat userLng p =
           Some \<lparr>a_place = p,
                 a_distance = Num (spec_haversine userLat userLng plat plng),
                 a_nameScore = spec_nameScore lc visionName (place_name p),
                 a_score = Num (spec_compositeA (spec_nameScore lc visionName (place_name p))
                                 (spec_haversine userLat userLng plat plng))\<rparr>"
proof -
  have h: "haversine userLat userLng plat plng = Num (spec_haversine userLat userLng plat plng)"
    using assms(6,7) by (intro haversine_eq) (simp_all add: validLat_def)
  show ?thesis
    unfolding matchPlace_kept [OF assms(2-5)] h nameScoreOf_spec [where lc = lc, OF assms(1)]
    by (simp add: spec_compositeA_def min.commute algebra_simps)
qed

lemma matchPlace_Some_cases:
  assumes "matchPlace lc visionName userLat userLng p = Some m"
  obtains plat plng where "place_lat p = Some plat" "place_lng p = Some plng" "plat \<noteq> 0" "plng \<noteq> 0"
proof -
  from assms have "\<not> falsy_number (place_lat p)" "\<not> falsy_number (place_lng p)"
    by (auto simp: matchPlace_def split: if_splits)
  then show ?thesis using that
    by (cases "place_lat p"; cases "place_lng p") auto
qed

lemma validPlaces_lat:
  "validPlaces rs \<Longrightarrow> p \<in> set rs \<Longrightarrow> place_lat p = Some plat \<Longrightarrow> validLat plat"
  by (auto simp: validPlaces_def list_all_iff split: option.splits)

lemma in_map_filter: "m \<in> set (List.map_filter f rs) \<longleftrightarrow> (\<exists>p \<in> set rs. f p = Some m)"
  by (induction rs) (auto simp: map_filter_simps split: option.splits)

lemma matchPlace_finite:
  assumes "validLat userLat" "validPlaces rs"
    "m \<in> set (List.map_filter (matchPlace lc visionName userLat userLng) rs)"
  shows "is_finite (a_score m)"
proof -
  obtain p where p: "p \<in> set rs" "matchPlace lc visionName userLat userLng p = Some m"
    using assms(3) by (auto simp: in_map_filter)
  obtain plat plng where c: "place_lat p = Some plat" "place_lng p = Some plng" "plat \<noteq> 0" "plng \<noteq> 0"
    using p(2) by (rule matchPlace_Some_cases)
  have "validLat plat" using validPlaces_lat [OF assms(2) p(1) c(1)] .
  then have "haversine userLat userLng plat plng = Num (spec_haversine userLat userLng plat plng)"
    using assms(1) by (intro haversine_eq) (simp_all add: validLat_def)
  then show ?thesis using p(2) matchPlace_kept [OF c, of lc visionName userLat userLng] by auto
qed

lemma sort_desc_head_top:
  assumes "\<forall>x \<in> set xs. is_finite (sc x)" "sort_desc sc xs = m # ms" "x \<in> set xs"
  shows "num_le (sc x) (sc m)"
proof -
  have "sorted_wrt (\<lambda>a b. num_le (sc b) (sc a)) (m # ms)"
    using sort_desc_sorted_stably [OF assms(1)] assms(2) by (simp add: sorted_stably_def)
  then have later: "\<forall>y \<in> set ms. num_le (sc y) (sc m)" by simp
  have "set (m # ms) = set xs" using set_sort_desc [of sc xs] assms(2) by simp
  then have "x = m \<or> x \<in> set ms" using assms(3) by auto
  moreover have "is_finite (sc m)" using assms(1) \<open>set (m # ms) = set xs\<close> by auto
  then have "num_le (sc m) (sc m)" by (cases "sc m") auto
  ultimately show ?thesis using later by auto
qed

lemma acceptText_Some:
  "acceptText ys = Some m \<Longrightarrow> (\<exists>ms. ys = m # ms) \<and> num_less (a_distance m) 2000"
  by (auto simp: acceptText_def split: list.splits if_splits)

lemma textSearchLoop_accepts:
  "textSearchLoop w visionName lat lng qs = (Done (Some m), calls) \<Longrightarrow>
   \<exists>q \<in> set qs. \<exists>d. textSearch w q = Fetched d \<and>
      bestTextMatch (toLowerCase w) visionName lat lng (results d) = Some m"
proof (induction qs arbitrary: calls)
  case Nil
  then show ?case by simp
next
  case (Cons q qs)
  show ?case
  proof (cases "textSearch w q")
    case Threw
    then show ?thesis using Cons.prems by simp
  next
    case NotOk
    then obtain calls' where "textSearchLoop w visionName lat lng qs = (Done (Some m), calls')"
      using Cons.prems by (auto split: prod.splits)
    then show ?thesis using Cons.IH by auto
  next
    case (Fetched d)
    show ?thesis
    proof (cases "bestTextMatch (toLowerCase w) visionName lat lng (results d)")
      case None
      then obtain calls' where "textSearchLoop w visionName lat lng qs = (Done (Some m), calls')"
        using Cons.prems Fetched by (auto split: prod.splits if_splits)
      then show ?thesis using Cons.IH by auto
    next
      case (Some m')
      then have "m' = m" using Cons.prems Fetched by (auto split: if_splits)
      then show ?thesis using Some Fetched by auto
    qed
  qed
qed

lemma strategy1_accepts:
  assumes "strategy1 w vision lat lng = (Done (Some m), calls)"
  shows "\<exists>v n q d. vision = Some v \<and> v_name v = Some n \<and> n \<noteq> [] \<and>
           textSearch w q = Fetched d \<and>
           bestTextMatch (toLowerCase w) n lat lng (results d) = Some m"
proof -
  from assms obtain v n where
    v: "vision = Some v" "v_name v = Some n" "n \<noteq> []"
    "textSearchLoop w n lat lng (searchQueries v n lat lng) = (Done (Some m), calls)"
    by (auto simp: strategy1_def split: option.splits if_splits)
  then show ?thesis using textSearchLoop_accepts [OF v(4)] by blast
qed

lemma bestTextMatch_Some:
  assumes "bestTextMatch lc visionName userLat userLng res = Some m"
  shows "num_less (a_distance m) 2000"
    and "\<exists>rs. res = Some rs \<and> m \<in> set (List.map_filter (matchPlace lc visionName userLat userLng) rs)"
proof -
  from assms obtain rs where rs: "res = Some rs" "rs \<noteq> []"
    "acceptText (sort_desc a_score (List.map_filter (matchPlace lc visionName userLat userLng) rs)) = Some m"
    by (auto simp: bestTextMatch_def split: option.splits if_splits)
  from acceptText_Some [OF rs(3)] obtain ms where
    ms: "sort_desc a_score (List.map_filter (matchPlace lc visionName userLat userLng) rs) = m # ms"
    and d: "num_less (a_distance m) 2000" by auto
  have "m \<in> set (List.map_filter (matchPlace lc visionName userLat userLng) rs)"
    using set_sort_desc [of a_score "List.map_filter (matchPlace lc visionName userLat userLng) rs"] ms
    by auto
  then show "num_less (a_distance m) 2000" and
    "\<exists>rs. res = Some rs \<and> m \<in> set (List.map_filter (matchPlace lc visionName userLat userLng) rs)"
    using d rs(1) by auto
qed

text \<open>
  C1, as amended. Strategy A, the text search. A candidate whose latitude or longitude is
  missing or \<open>0\<close> is dropped without a score. For every other candidate, when the hint
  has a name (its lower-case form is not empty) and the latitudes lie in \<open>[-90, 90]\<close>,
  the name score is 1 when the lower-case forms of the two names are equal, 0.7 when one
  of them contains the other, and the token-overlap ratio otherwise, whatever the case
  mapping \<open>lc\<close> of the platform is; the distance is the haversine distance from the
  device; the score is \<open>0.7 * nameScore + 0.3 * (1 - min (distance / 2000) 1)\<close>.
  The candidate selected from a response has a distance below 2000 m, is one of the scored
  candidates, and no scored candidate has a higher score. What Strategy A accepts is the
  candidate selected from the response to one of its queries, so its distance is below
  2000 m.
\<close>

theorem text_search_scoring:
  "(falsy_number (place_lat p) \<or> falsy_number (place_lng p) \<longrightarrow>
      matchPlace lc visionName userLat userLng p = None) \<and>
   (lc visionName \<noteq> [] \<and> place_lat p = Some plat \<and> place_lng p = Some plng \<and>
    plat \<noteq> 0 \<and> plng \<noteq> 0 \<and> validLat userLat \<and> validLat plat \<longrightarrow>
      matchPlace lc visionName userLat userLng p =
        Some \<lparr>a_place = p,
              a_distance = Num (spec_haversine userLat userLng plat plng),
              a_nameScore = spec_nameScore lc visionName (place_name p),
              a_score = Num (spec_compositeA (spec_nameScore lc visionName (place_name p))
                              (spec_haversine userLat userLng plat plng))\<rparr>) \<and>
   (bestTextMatch lc visionName userLat userLng res = Some m \<longrightarrow>
      num_less (a_distance m) 2000 \<and>
      (\<exists>rs. res = Some rs \<and> m \<in> set (List.map_filter (matchPlace lc visionName userLat userLng) rs))) \<and>
   (bestTextMatch lc visionName userLat userLng (Some rs) = Some m \<and> validLat userLat \<and> validPlaces rs \<longrightarrow>
      (\<forall>m' \<in> set (List.map_filter (matchPlace lc visionName userLat userLng) rs).
         num_le (a_score m') (a_score m))) \<and>
   (strategy1 w vision userLat userLng = (Done (Some m), calls) \<longrightarrow>
      num_less (a_distance m) 2000 \<and>
      (\<exists>v n q d. vision = Some v \<and> v_name v = Some n \<and> textSearch w q = Fetched d \<and>
         bestTextMatch (toLowerCase w) n userLat userLng (results d) = Some m))"
proof (intro conjI impI)
  assume "strategy1 w vision userLat userLng = (Done (Some m), calls)"
  from strategy1_accepts [OF this] obtain v n q d where
    s: "vision = Some v" "v_name v = Some n" "textSearch w q = Fetched d"
      "bestTextMatch (toLowerCase w) n userLat userLng (results d) = Some m"
    by blast
  show "num_less (a_distance m) 2000" using bestTextMatch_Some(1) [OF s(4)] .
  show "\<exists>v n q d. vision = Some v \<and> v_name v = Some n \<and> textSearch w q = Fetched d \<and>
         bestTextMatch (toLowerCase w) n userLat userLng (results d) = Some m"
    using s by blast
next
  assume "falsy_number (place_lat p) \<or> falsy_number (place_lng p)"
  then show "matchPlace lc visionName userLat userLng p = None" by (rule matchPlace_dropped)
next
  assume "lc visionName \<noteq> [] \<and> place_lat p = Some plat \<and> place_lng p = Some plng \<and>
    plat \<noteq> 0 \<and> plng \<noteq> 0 \<and> validLat userLat \<and> validLat plat"
  then show "matchPlace lc visionName userLat userLng p =
        Some \<lparr>a_place = p,
              a_distance = Num (spec_haversine userLat userLng plat plng),
              a_nameScore = spec_nameScore lc visionName (place_name p),
              a_score = Num (spec_compositeA (spec_nameScore lc visionName (place_name p))
                              (spec_haversine userLat userLng plat plng))\<rparr>"
    by (intro matchPlace_spec) simp_all
next
  assume b: "bestTextMatch lc visionName userLat userLng res = Some m"
  then obtain rs where rs: "res = Some rs" "rs \<noteq> []"
    "acceptText (sort_desc a_score (List.map_filter (matchPlace lc visionName userLat userLng) rs)) = Some m"
    by (auto simp: bestTextMatch_def split: option.splits if_splits)
  from acceptText_Some [OF rs(3)] obtain ms where
    ms: "sort_desc a_score (List.map_filter (matchPlace lc visionName userLat userLng) rs) = m # ms"
    and d: "num_less (a_distance m) 2000" by auto
  have "m \<in> set (List.map_filter (matchPlace lc visionName userLat userLng) rs)"
    using set_sort_desc [of a_score "List.map_filter (matchPlace lc visionName userLat userLng) rs"] ms
    by auto
  then show "num_less (a_distance m) 2000" and
    "\<exists>rs. res = Some rs \<and> m \<in> set (List.map_filter (matchPlace lc visionName userLat userLng) rs)"
    using d rs(1) by auto
next
  assume a: "bestTextMatch lc visionName userLat userLng (Some rs) = Some m \<and> validLat userLat \<and> validPlaces rs"
  let ?xs = "List.map_filter (matchPlace lc visionName userLat userLng) rs"
  have "acceptText (sort_desc a_score ?xs) = Some m"
    using a by (auto simp: bestTextMatch_def split: if_splits)
  then obtain ms where ms: "sort_desc a_score ?xs = m # ms"
    using acceptText_Some by blast
  have fin: "\<forall>x \<in> set ?xs. is_finite (a_score x)"
    using a matchPlace_finite by blast
  show "\<forall>m' \<in> set ?xs. num_le (a_score m') (a_score m)"
    using sort_desc_head_top [OF fin ms] by blast
qed



lemma typeMatches_spec: "typeMatches lc visionType p = (spec_typeBonus lc visionType (place_types p) = 0.3)"
  by (auto simp: typeMatches_def spec_typeBonus_def str_includes_sublist list_ex_iff
      split: option.splits)

lemma spec_typeBonus_cases:
  "spec_typeBonus lc visionType tags = 0.3 \<or> spec_typeBonus lc visionType tags = 0"
  by (simp add: spec_typeBonus_def split: option.splits)

lemma scoreNearby_raw:
  assumes "place_lat p = Some plat" "place_lng p = Some plng" "plat \<noteq> 0" "plng \<noteq> 0"
  shows "scoreNearby lc visionType dirX dirZ userLat userLng p =
           Some \<lparr>b_place = p, b_distance = haversine userLat userLng plat plng,
                 b_bearing = bearingTo userLat userLng plat plng,
                 b_score =
                   (if typeMatches lc visionType p
                    then num_addc (num_addc
                           (num_recip (num_addc (num_divc (haversine userLat userLng plat plng) 50) 1))
                           (spec_directionScore (bearingTo userLat userLng plat plng)
                              (atan2 dirX dirZ * 180 / pi) * 0.5)) 0.3
                    else num_addc
                           (num_recip (num_addc (num_divc (haversine userLat userLng plat plng) 50) 1))
                           (spec_directionScore (bearingTo userLat userLng plat plng)
                              (atan2 dirX dirZ * 180 / pi) * 0.5))\<rparr>"
  using assms by (simp add: scoreNearby_def Let_def spec_directionScore_def)

lemma scoreNearby_kept:
  assumes "place_lat p = Some plat" "place_lng p = Some plng" "plat \<noteq> 0" "plng \<noteq> 0"
    "haversine userLat userLng plat plng = Num d" "0 \<le> d"
  shows "scoreNearby lc visionType dirX dirZ userLat userLng p =
           Some \<lparr>b_place = p, b_distance = Num d,
                 b_bearing = bearingTo userLat userLng plat plng,
                 b_score = Num (spec_compositeB (spec_distanceScore d)
                     (spec_directionScore (bearingTo userLat userLng plat plng)
                        (atan2 dirX dirZ * 180 / pi))
                     (spec_typeBonus lc visionType (place_types p)))\<rparr>"
proof -
  have nz: "d / 50 + 1 \<noteq> 0" using assms(6) by (simp add: add_nonneg_eq_0_iff)
  have r: "num_recip (num_addc (num_divc (Num d) 50) 1) = Num (spec_distanceScore d)"
    using nz by (simp add: js_div_def spec_distanceScore_def add.commute)
  have "spec_typeBonus lc visionType (place_types p) \<noteq> 0.3 \<Longrightarrow>
        spec_typeBonus lc visionType (place_types p) = 0"
    using spec_typeBonus_cases [of lc visionType "place_types p"] by auto
  then show ?thesis
    unfolding scoreNearby_raw [OF assms(1-4)] assms(5) r typeMatches_spec
    by (simp add: spec_compositeB_def)
qed

lemma scoreNearby_Some_cases:
  assumes "scoreNearby lc visionType dirX dirZ userLat userLng p = Some m"
  obtains plat plng where "place_lat p = Some plat" "place_lng p = Some plng" "plat \<noteq> 0" "plng \<noteq> 0"
proof -
  from assms have "\<not> falsy_number (place_lat p)" "\<not> falsy_number (place_lng p)"
    by (auto simp: scoreNearby_def split: if_splits)
  then show ?thesis using that
    by (cases "place_lat p"; cases "place_lng p") auto
qed

lemma haversine_valid:
  assumes "validLat lat1" "validLat lat2"
  shows "haversine lat1 lng1 lat2 lng2 = Num (spec_haversine lat1 lng1 lat2 lng2)"
    and "0 \<le> spec_haversine lat1 lng1 lat2 lng2"
  using assms haversine_eq [of lat1 lat2 lng1 lng2] spec_haversine_nonneg [of lat1 lat2 lng1 lng2]
  by (simp_all add: validLat_def)

lemma scoreNearby_finite:
  assumes "validLat userLat" "validPlaces rs"
    "m \<in> set (List.map_filter (scoreNearby lc visionType dirX dirZ userLat userLng) rs)"
  shows "is_finite (b_score m)"
proof -
  obtain p where p: "p \<in> set rs" "scoreNearby lc visionType dirX dirZ userLat userLng p = Some m"
    using assms(3) by (auto simp: in_map_filter)
  obtain plat plng where c: "place_lat p = Some plat" "place_lng p = Some plng" "plat \<noteq> 0" "plng \<noteq> 0"
    using p(2) by (rule scoreNearby_Some_cases)
  have v: "validLat plat" using validPlaces_lat [OF assms(2) p(1) c(1)] .
  show ?thesis
    using p(2) scoreNearby_kept [OF c haversine_valid [OF assms(1) v], where userLng = userLng
        and visionType = visionType and dirX = dirX and dirZ = dirZ]
    by auto
qed





text \<open>
  C8. The selection is determined by the candidates and the hint: whatever order a
  sort that keeps the promise of \<open>Array.prototype.sort\<close> produces, on two runs or on two
  engines, the candidate selected is the same, and it is the one the model selects.
\<close>

theorem selection_deterministic:
  "validLat userLat \<and> validPlaces rs \<and> validPlaces rs' \<and>
   sorted_stably a_score (List.map_filter (matchPlace lc visionName userLat userLng) rs) ysa \<and>
   sorted_stably a_score (List.map_filter (matchPlace lc visionName userLat userLng) rs) ysb \<and>
   sorted_stably b_score (List.map_filter (scoreNearby lc visionType dirX dirZ userLat userLng) rs') zsa \<and>
   sorted_stably b_score (List.map_filter (scoreNearby lc visionType dirX dirZ userLat userLng) rs') zsb
   \<longrightarrow>
     acceptText ysa = acceptText ysb \<and>
     acceptNearby zsa = acceptNearby zsb \<and>
     (rs \<noteq> [] \<longrightarrow> bestTextMatch lc visionName userLat userLng (Some rs) = acceptText ysa) \<and>
     (rs' \<noteq> [] \<longrightarrow> bestNearby lc visionType dirX dirZ userLat userLng (Some rs') = acceptNearby zsa)"
proof (intro impI)
  let ?xs = "List.map_filter (matchPlace lc visionName userLat userLng) rs"
  let ?zs = "List.map_filter (scoreNearby lc visionType dirX dirZ userLat userLng) rs'"
  assume a: "validLat userLat \<and> validPlaces rs \<and> validPlaces rs' \<and>
   sorted_stably a_score ?xs ysa \<and> sorted_stably a_score ?xs ysb \<and>
   sorted_stably b_score ?zs zsa \<and> sorted_stably b_score ?zs zsb"
  have finA: "\<forall>x \<in> set ?xs. is_finite (a_score x)" using a matchPlace_finite by blast
  have finB: "\<forall>x \<in> set ?zs. is_finite (b_score x)" using a scoreNearby_finite by blast
  have y: "ysa = sort_desc a_score ?xs" "ysb = sort_desc a_score ?xs"
    using a sorted_stably_unique [OF finA] by blast+
  have z: "zsa = sort_desc b_score ?zs" "zsb = sort_desc b_score ?zs"
    using a sorted_stably_unique [OF finB] by blast+
  show "acceptText ysa = acceptText ysb \<and>
     acceptNearby zsa = acceptNearby zsb \<and>
     (rs \<noteq> [] \<longrightarrow> bestTextMatch lc visionName userLat userLng (Some rs) = acceptText ysa) \<and>
     (rs' \<noteq> [] \<longrightarrow> bestNearby lc visionType dirX dirZ userLat userLng (Some rs') = acceptNearby zsa)"
    unfolding y z by (simp add: bestTextMatch_def bestNearby_def)
qed

section \<open>The scores on the example data\<close>

lemma haversine_same: "haversine lat lng lat lng = Num 0"
  by (simp add: haversine_def js_sqrt_def atan2_def)

lemma bearingTo_same: "bearingTo lat lng lat lng = 0"
  by (simp add: bearingTo_def atan2_def mult.commute)

lemma lower_ferry: "asciiLower ''Ferry Building'' = ''ferry building''"
  by (simp add: asciiLower_def lower_char_def)

lemma lower_plaza: "asciiLower ''Ferry Plaza'' = ''ferry plaza''"
  by (simp add: asciiLower_def lower_char_def)

text \<open>The pieces of a split and the ends of a trim, on ASCII and beyond it.\<close>

lemma split_ws_words: "split_ws ''ferry building'' = [''ferry'', ''building'']"
  by (simp add: split_ws_def spaceAt_def whiteSpace_def)

lemma split_ws_edges: "split_ws '' a  b '' = [[], ''a'', ''b'', []]" "split_ws [] = [[]]"
  by (simp_all add: split_ws_def spaceAt_def whiteSpace_def)

lemma split_ws_unicode:
  "split_ws (''a'' @ [CHR 0xC2, CHR 0xA0] @ ''b'' @ [CHR 0xE3, CHR 0x80, CHR 0x80, CHR 0x20] @
             [CHR 0xC3, CHR 0xA9]) = [''a'', ''b'', [CHR 0xC3, CHR 0xA9]]"
  by (simp add: split_ws_def spaceAt_def whiteSpace_def)

lemma trim_unicode:
  "trim ([CHR 0xC2, CHR 0xA0, CHR 0x20] @ ''a b'' @ [CHR 0x0A, CHR 0xE2, CHR 0x80, CHR 0xA9]) = ''a b''"
  by (simp add: trim_def spaceAt_def whiteSpace_def)

lemma nameScore_contained: "nameScoreOf asciiLower ''Ferry'' ''Ferry Building'' = 0.7"
  by (simp add: nameScoreOf_def asciiLower_def lower_char_def)

lemma nameScore_case: "nameScoreOf asciiLower ''FERRY building'' ''Ferry Building'' = 1"
  by (simp add: nameScoreOf_def asciiLower_def lower_char_def)


lemma nameScore_ferry: "nameScoreOf asciiLower ''Ferry Building'' ''Ferry Building'' = 1"
  by (simp add: nameScoreOf_def lower_ferry)

lemma nameScore_plaza: "nameScoreOf asciiLower ''Ferry Building'' ''Ferry Plaza'' = 0.5"
  by (simp add: nameScoreOf_def lower_ferry lower_plaza Let_def split_ws_def spaceAt_def whiteSpace_def)

lemma match_ferry:
  "matchPlace asciiLower ''Ferry Building'' 38 (- 122) ferry_building =
     Some \<lparr>a_place = ferry_building, a_distance = Num 0, a_nameScore = 1, a_score = Num 1\<rparr>"
  by (simp add: matchPlace_def ferry_building_def haversine_same nameScore_ferry)


lemma match_plaza:
  "matchPlace asciiLower ''Ferry Building'' 38 (- 122) ferry_plaza =
     Some \<lparr>a_place = ferry_plaza, a_distance = Num 0, a_nameScore = 0.5, a_score = Num 0.65\<rparr>"
  by (simp add: matchPlace_def ferry_plaza_def haversine_same nameScore_plaza)

lemma best_text_ferry:
  "bestTextMatch asciiLower ''Ferry Building'' 38 (- 122) (Some [ferry_plaza, ferry_building]) =
     Some \<lparr>a_place = ferry_building, a_distance = Num 0, a_nameScore = 1, a_score = Num 1\<rparr>"
  by (simp add: bestTextMatch_def map_filter_simps match_plaza match_ferry sort_desc_def
      comparator_def acceptText_def)

lemma valid_ferry: "validPlaces [ferry_plaza, ferry_building]" "validPlaces [ferry_building, ferry_plaza]"
  by (simp_all add: validPlaces_def validLat_def ferry_plaza_def ferry_building_def)

lemma strategy1_ferry:
  "strategy1 ferry_world (Some ferry_vision) 38 (- 122) =
     (Done (Some \<lparr>a_place = ferry_building, a_distance = Num 0, a_nameScore = 1, a_score = Num 1\<rparr>),
      [CallTextSearch (NameOnly ''Ferry Building'')])"
  by (simp add: strategy1_def ferry_vision_def searchQueries_def ferry_world_def quiet_world_def
      best_text_ferry)

lemma kiosk_distance_bounds: "0 < kiosk_distance" "kiosk_distance < 150"
  using pi_gt_zero pi_less_4 by (simp_all add: kiosk_distance_def)

lemma valid_kiosk: "validLat 38" "validLat (38001 / 1000)" "validLat (37999 / 1000)"
  by (simp_all add: validLat_def)

lemma kiosk_haversine:
  "spec_haversine 38 (- 122) (38001 / 1000) (- 122) = kiosk_distance"
  "spec_haversine 38 (- 122) (37999 / 1000) (- 122) = kiosk_distance"
  by (simp_all add: spec_haversine_meridian valid_kiosk kiosk_distance_def)

text \<open>
  The scenario of the specification: a candidate that bears the name of the hint, 50 m
  from the device, is scored 0.9925 and accepted.
\<close>

lemma text_search_scenario:
  assumes "lc visionName \<noteq> []" "lc (place_name p) = lc visionName"
    "place_lat p = Some plat" "place_lng p = Some plng" "plat \<noteq> 0" "plng \<noteq> 0"
    "validLat userLat" "validLat plat" "spec_haversine userLat userLng plat plng = 50"
  shows "bestTextMatch lc visionName userLat userLng (Some [p]) =
           Some \<lparr>a_place = p, a_distance = Num 50, a_nameScore = 1, a_score = Num 0.9925\<rparr>"
proof -
  have n: "spec_nameScore lc visionName (place_name p) = 1"
    using assms(2) by (simp add: spec_nameScore_def)
  have "matchPlace lc visionName userLat userLng p =
          Some \<lparr>a_place = p, a_distance = Num 50, a_nameScore = 1, a_score = Num 0.9925\<rparr>"
    unfolding matchPlace_spec [where lc = lc, OF assms(1,3-8)] n assms(9)
    by (simp add: spec_compositeA_def)
  then show ?thesis
    by (simp add: bestTextMatch_def map_filter_simps sort_desc_def acceptText_def)
qed

theorem text_search_scoring_witness:
  "(matchPlace asciiLower ''Ferry Building'' 38 (- 122) ferry_building =
     Some \<lparr>a_place = ferry_building, a_distance = Num 0, a_nameScore = 1, a_score = Num 1\<rparr> \<and>
   bestTextMatch asciiLower ''Ferry Building'' 38 (- 122) (Some [ferry_plaza, ferry_building]) =
     Some \<lparr>a_place = ferry_building, a_distance = Num 0, a_nameScore = 1, a_score = Num 1\<rparr> \<and>
   spec_haversine 38 (- 122) 38 (- 122) = 0 \<and>
   spec_nameScore asciiLower ''Ferry Building'' ''Ferry Building'' = 1 \<and>
   spec_compositeA 1 0 = 1 \<and>
   list_all (\<lambda>m'. num_le (a_score m') (Num 1))
     (List.map_filter (matchPlace asciiLower ''Ferry Building'' 38 (- 122)) [ferry_plaza, ferry_building]) \<and>
   strategy1 ferry_world (Some ferry_vision) 38 (- 122) =
     (Done (Some \<lparr>a_place = ferry_building, a_distance = Num 0, a_nameScore = 1, a_score = Num 1\<rparr>),
      [CallTextSearch (NameOnly ''Ferry Building'')]) \<and>
   num_less (Num 0) 2000) \<and>
   matchPlace asciiLower ''north kiosk'' 38 (- 122) north_kiosk =
     Some \<lparr>a_place = north_kiosk, a_distance = Num kiosk_distance, a_nameScore = 1,
           a_score = Num (0.7 + 0.3 * (1 - kiosk_distance / 2000))\<rparr> \<and>
   spec_haversine 38 (- 122) (38001 / 1000) (- 122) = kiosk_distance \<and>
   kiosk_distance < 2000"
proof -
  have on_device: "matchPlace asciiLower ''Ferry Building'' 38 (- 122) ferry_building =
     Some \<lparr>a_place = ferry_building, a_distance = Num 0, a_nameScore = 1, a_score = Num 1\<rparr> \<and>
   bestTextMatch asciiLower ''Ferry Building'' 38 (- 122) (Some [ferry_plaza, ferry_building]) =
     Some \<lparr>a_place = ferry_building, a_distance = Num 0, a_nameScore = 1, a_score = Num 1\<rparr> \<and>
   spec_haversine 38 (- 122) 38 (- 122) = 0 \<and>
   spec_nameScore asciiLower ''Ferry Building'' ''Ferry Building'' = 1 \<and>
   spec_compositeA 1 0 = 1 \<and>
   list_all (\<lambda>m'. num_le (a_score m') (Num 1))
     (List.map_filter (matchPlace asciiLower ''Ferry Building'' 38 (- 122)) [ferry_plaza, ferry_building]) \<and>
   strategy1 ferry_world (Some ferry_vision) 38 (- 122) =
     (Done (Some \<lparr>a_place = ferry_building, a_distance = Num 0, a_nameScore = 1, a_score = Num 1\<rparr>),
      [CallTextSearch (NameOnly ''Ferry Building'')]) \<and>
   num_less (Num 0) 2000"
  proof -
    let ?m = "\<lparr>a_place = ferry_building, a_distance = Num 0, a_nameScore = 1, a_score = Num 1\<rparr>"
    note t = text_search_scoring [where lc = asciiLower and p = ferry_building
        and visionName = "''Ferry Building''"
        and userLat = 38 and userLng = "- 122" and plat = 38 and plng = "- 122"
        and res = "Some [ferry_plaza, ferry_building]" and m = ?m
        and rs = "[ferry_plaza, ferry_building]" and w = ferry_world and vision = "Some ferry_vision"
        and calls = "[CallTextSearch (NameOnly ''Ferry Building'')]"]
    have acc: "num_less (a_distance ?m) 2000"
      using t strategy1_ferry by blast
    have h: "place_lat ferry_building = Some 38" "place_lng ferry_building = Some (- 122)"
      "place_name ferry_building = ''Ferry Building''" "validLat 38"
      by (simp_all add: ferry_building_def validLat_def)
    have "matchPlace asciiLower ''Ferry Building'' 38 (- 122) ferry_building =
          Some \<lparr>a_place = ferry_building,
                a_distance = Num (spec_haversine 38 (- 122) 38 (- 122)),
                a_nameScore = spec_nameScore asciiLower ''Ferry Building'' ''Ferry Building'',
                a_score = Num (spec_compositeA (spec_nameScore asciiLower ''Ferry Building'' ''Ferry Building'')
                                (spec_haversine 38 (- 122) 38 (- 122)))\<rparr>"
      using t h lower_ferry by simp
    then have s: "spec_haversine 38 (- 122) 38 (- 122) = 0"
      "spec_nameScore asciiLower ''Ferry Building'' ''Ferry Building'' = 1"
      using match_ferry by simp_all
    have c: "spec_compositeA 1 0 = 1" by (simp add: spec_compositeA_def)
    have "\<forall>m' \<in> set (List.map_filter (matchPlace asciiLower ''Ferry Building'' 38 (- 122))
                        [ferry_plaza, ferry_building]). num_le (a_score m') (a_score ?m)"
      using t best_text_ferry valid_ferry(1) h(4) by blast
    then show ?thesis using match_ferry best_text_ferry s c acc strategy1_ferry
      by (simp add: list_all_iff)
  qed
  note tK = text_search_scoring [where lc = asciiLower and p = north_kiosk
      and visionName = "''north kiosk''" and userLat = 38 and userLng = "- 122"
      and plat = "38001 / 1000" and plng = "- 122"]
  have k: "place_lat north_kiosk = Some (38001 / 1000)" "place_lng north_kiosk = Some (- 122)"
    "place_name north_kiosk = ''North Kiosk''"
    by (simp_all add: north_kiosk_def)
  have l: "asciiLower ''north kiosk'' = ''north kiosk''" "asciiLower ''North Kiosk'' = ''north kiosk''"
    by (simp_all add: asciiLower_def lower_char_def)
  have "matchPlace asciiLower ''north kiosk'' 38 (- 122) north_kiosk =
        Some \<lparr>a_place = north_kiosk,
              a_distance = Num (spec_haversine 38 (- 122) (38001 / 1000) (- 122)),
              a_nameScore = spec_nameScore asciiLower ''north kiosk'' (place_name north_kiosk),
              a_score = Num (spec_compositeA
                  (spec_nameScore asciiLower ''north kiosk'' (place_name north_kiosk))
                  (spec_haversine 38 (- 122) (38001 / 1000) (- 122)))\<rparr>"
    using tK k l valid_kiosk by simp
  moreover have "min (kiosk_distance / 2000) 1 = kiosk_distance / 2000"
    using kiosk_distance_bounds by simp
  ultimately have off_device: "matchPlace asciiLower ''north kiosk'' 38 (- 122) north_kiosk =
     Some \<lparr>a_place = north_kiosk, a_distance = Num kiosk_distance, a_nameScore = 1,
           a_score = Num (0.7 + 0.3 * (1 - kiosk_distance / 2000))\<rparr> \<and>
   spec_haversine 38 (- 122) (38001 / 1000) (- 122) = kiosk_distance \<and>
   kiosk_distance < 2000"
    using kiosk_distance_bounds
    by (simp add: kiosk_haversine k l spec_nameScore_def spec_compositeA_def)
  show ?thesis using on_device off_device by blast
qed

lemma lower_equator: "asciiLower ''Equator Cafe'' = ''equator cafe''"
  by (simp add: asciiLower_def lower_char_def)

lemma equator_distance:
  "spec_haversine (1 / 1000) 10 0 10 = kiosk_distance"
  "spec_haversine (- (1 / 1000)) 10 0 10 = kiosk_distance"
  by (simp_all add: spec_haversine_meridian validLat_def kiosk_distance_def)

lemma best_text_equator:
  "bestTextMatch asciiLower ''Equator Cafe'' (1 / 1000) 10 (Some [equator_cafe]) = None"
  by (simp add: bestTextMatch_def map_filter_simps matchPlace_dropped equator_cafe_def
      sort_desc_def acceptText_def)

lemma strategy1_equator:
  "strategy1 equator_world (Some equator_vision) (1 / 1000) 10 =
     (Done None,
      [CallTextSearch (NameOnly ''Equator Cafe''),
       CallTextSearch (NameNear ''Equator Cafe'' (1 / 1000) 10),
       CallTextSearch (NameAndType ''Equator Cafe'' ''cafe'')])"
  by (simp add: strategy1_def equator_vision_def ferry_vision_def searchQueries_def
      equator_world_def quiet_world_def best_text_equator)

text \<open>
  The claim for every candidate does not hold. The cafe on the equator bears the name of
  the hint and lies \<open>kiosk_distance\<close> metres from a device at \<open>(0.001, 10)\<close>, less than
  2000 m: its name score would be 1 and it would be accepted. Its latitude \<open>0\<close> is
  falsy, so the callback returns \<open>null\<close> for it, and Strategy 1 ends without a match
  after its three queries.
\<close>

theorem text_search_counterexample:
  "place_name equator_cafe = ''Equator Cafe'' \<and>
   place_lat equator_cafe = Some 0 \<and> place_lng equator_cafe = Some 10 \<and>
   asciiLower ''Equator Cafe'' \<noteq> [] \<and>
   spec_nameScore asciiLower ''Equator Cafe'' (place_name equator_cafe) = 1 \<and>
   spec_haversine (1 / 1000) 10 0 10 < 2000 \<and>
   matchPlace asciiLower ''Equator Cafe'' (1 / 1000) 10 equator_cafe = None \<and>
   bestTextMatch asciiLower ''Equator Cafe'' (1 / 1000) 10 (Some [equator_cafe]) = None \<and>
   textSearch equator_world (NameOnly ''Equator Cafe'') =
     Fetched \<lparr>status = ''OK'', results = Some [equator_cafe]\<rparr> \<and>
   fst (strategy1 equator_world (Some equator_vision) (1 / 1000) 10) = Done None"
proof -
  have e: "place_name equator_cafe = ''Equator Cafe''"
    "place_lat equator_cafe = Some 0" "place_lng equator_cafe = Some 10"
    by (simp_all add: equator_cafe_def)
  have m: "matchPlace asciiLower ''Equator Cafe'' (1 / 1000) 10 equator_cafe = None"
    by (rule matchPlace_dropped) (simp add: e)
  have "bestTextMatch asciiLower ''Equator Cafe'' (1 / 1000) 10 (Some [equator_cafe]) = None"
    by (simp add: bestTextMatch_def map_filter_simps m sort_desc_def acceptText_def)
  moreover have "textSearch equator_world (NameOnly ''Equator Cafe'') =
     Fetched \<lparr>status = ''OK'', results = Some [equator_cafe]\<rparr>"
    by (simp add: equator_world_def)
  ultimately show ?thesis
    using e m kiosk_distance_bounds
    by (simp add: equator_distance lower_equator spec_nameScore_def strategy1_equator)
qed

lemma atan2_forward: "0 < dz \<Longrightarrow> atan2 0 dz = 0"
  by (simp add: atan2_def)

lemma scoreNearby_same:
  assumes "place_lat p = Some lat" "place_lng p = Some lng" "lat \<noteq> 0" "lng \<noteq> 0" "0 < dz"
  shows "scoreNearby lc vt 0 dz lat lng p =
           Some \<lparr>b_place = p, b_distance = Num 0, b_bearing = 0,
                 b_score = Num (if typeMatches lc vt p then 1.8 else 1.5)\<rparr>"
  using assms
  by (simp add: scoreNearby_def haversine_same bearingTo_same atan2_forward js_div_def Let_def)

lemma typeMatches_plaza: "typeMatches asciiLower (Some ''park'') ferry_plaza"
  by (simp add: typeMatches_def ferry_plaza_def asciiLower_def lower_char_def)

lemma typeMatches_ferry: "\<not> typeMatches asciiLower (Some ''park'') ferry_building"
  by (simp add: typeMatches_def ferry_building_def asciiLower_def lower_char_def)

lemma nearby_plaza:
  "0 < dz \<Longrightarrow> scoreNearby asciiLower (Some ''park'') 0 dz 38 (- 122) ferry_plaza =
     Some \<lparr>b_place = ferry_plaza, b_distance = Num 0, b_bearing = 0, b_score = Num 1.8\<rparr>"
  using typeMatches_plaza
  by (subst scoreNearby_same [of _ 38 "- 122"]) (simp_all add: ferry_plaza_def)

lemma nearby_ferry:
  "0 < dz \<Longrightarrow> scoreNearby asciiLower (Some ''park'') 0 dz 38 (- 122) ferry_building =
     Some \<lparr>b_place = ferry_building, b_distance = Num 0, b_bearing = 0, b_score = Num 1.5\<rparr>"
  using typeMatches_ferry
  by (subst scoreNearby_same [of _ 38 "- 122"]) (simp_all add: ferry_building_def)













theorem selection_deterministic_witness:
  "validLat 38 \<and> validPlaces [ferry_building, ferry_plaza] \<and> validPlaces [ferry_plaza, ferry_building] \<and>
   sorted_stably a_score
     (List.map_filter (matchPlace asciiLower ''Ferry Building'' 38 (- 122)) [ferry_building, ferry_plaza])
     [\<lparr>a_place = ferry_building, a_distance = Num 0, a_nameScore = 1, a_score = Num 1\<rparr>,
      \<lparr>a_place = ferry_plaza, a_distance = Num 0, a_nameScore = 0.5, a_score = Num 0.65\<rparr>] \<and>
   sorted_stably b_score
     (List.map_filter (scoreNearby asciiLower (Some ''park'') 0 1 38 (- 122)) [ferry_plaza, ferry_building])
     [\<lparr>b_place = ferry_plaza, b_distance = Num 0, b_bearing = 0, b_score = Num 1.8\<rparr>,
      \<lparr>b_place = ferry_building, b_distance = Num 0, b_bearing = 0, b_score = Num 1.5\<rparr>] \<and>
   bestTextMatch asciiLower ''Ferry Building'' 38 (- 122) (Some [ferry_building, ferry_plaza]) =
     Some \<lparr>a_place = ferry_building, a_distance = Num 0, a_nameScore = 1, a_score = Num 1\<rparr> \<and>
   bestNearby asciiLower (Some ''park'') 0 1 38 (- 122) (Some [ferry_plaza, ferry_building]) =
     Some \<lparr>b_place = ferry_plaza, b_distance = Num 0, b_bearing = 0, b_score = Num 1.8\<rparr>"
proof -
  let ?ys = "[\<lparr>a_place = ferry_building, a_distance = Num 0, a_nameScore = 1, a_score = Num 1\<rparr>,
      \<lparr>a_place = ferry_plaza, a_distance = Num 0, a_nameScore = 0.5, a_score = Num 0.65\<rparr>]"
  let ?zs = "[\<lparr>b_place = ferry_plaza, b_distance = Num 0, b_bearing = 0, b_score = Num 1.8\<rparr>,
      \<lparr>b_place = ferry_building, b_distance = Num 0, b_bearing = 0, b_score = Num 1.5\<rparr>]"
  have v: "validLat 38" by (simp add: validLat_def)
  have xs: "List.map_filter (matchPlace asciiLower ''Ferry Building'' 38 (- 122)) [ferry_building, ferry_plaza] = ?ys"
    by (simp add: map_filter_simps match_ferry match_plaza)
  have zs: "List.map_filter (scoreNearby asciiLower (Some ''park'') 0 1 38 (- 122)) [ferry_plaza, ferry_building] = ?zs"
    by (simp add: map_filter_simps nearby_ferry nearby_plaza)
  have sy: "sorted_stably a_score
     (List.map_filter (matchPlace asciiLower ''Ferry Building'' 38 (- 122)) [ferry_building, ferry_plaza]) ?ys"
    unfolding xs by (simp add: sorted_stably_def)
  have sz: "sorted_stably b_score
     (List.map_filter (scoreNearby asciiLower (Some ''park'') 0 1 38 (- 122)) [ferry_plaza, ferry_building]) ?zs"
    unfolding zs by (simp add: sorted_stably_def)
  note t = selection_deterministic [where lc = asciiLower and userLat = 38 and userLng = "- 122"
      and rs = "[ferry_building, ferry_plaza]" and rs' = "[ferry_plaza, ferry_building]"
      and visionName = "''Ferry Building''" and visionType = "Some ''park''"
      and dirX = 0 and dirZ = 1 and ysa = ?ys and ysb = ?ys and zsa = ?zs and zsb = ?zs]
  have "bestTextMatch asciiLower ''Ferry Building'' 38 (- 122) (Some [ferry_building, ferry_plaza]) = acceptText ?ys"
    and "bestNearby asciiLower (Some ''park'') 0 1 38 (- 122) (Some [ferry_plaza, ferry_building]) = acceptNearby ?zs"
    using t v valid_ferry sy sz by simp_all
  then show ?thesis using v valid_ferry sy sz
    by (simp add: acceptText_def acceptNearby_def searchRadius_def)
qed

section \<open>Properties of the handler\<close>

lemma finalFallback_none:
  "finalFallback w None x y lat lng =
     (if hasLocation lat lng then
        (case (lat, lng) of
           (Some la, Some lo) \<Rightarrow> if hasApiKey w then noInformationFound la lo else apiKeyNotConfigured
         | other \<Rightarrow> locationRequired)
      else locationRequired)"
  by (cases lat; cases lng)
     (simp_all add: finalFallback_def hasLocation_def locationRequired_def apiKeyNotConfigured_def
       noInformationFound_def)

lemma afterVision_no_location:
  "\<not> hasLocation lat lng \<Longrightarrow>
   afterVision st clientId w vision x y lat lng = (finalFallback w vision x y lat lng, [], st)"
  by (cases lat; cases lng) (simp_all add: afterVision_def split: prod.splits)

lemma finalFallback_no_location:
  "\<not> hasLocation lat lng \<Longrightarrow>
   finalFallback w vision x y lat lng = finalFallback w vision x y None None"
  by (cases vision; cases lat; cases lng) (simp_all add: finalFallback_def hasLocation_def)

lemma resolve_no_location:
  assumes "\<not> hasLocation lat lng"
  shows "resolve st clientId w img x y lat lng =
           (finalFallback w (fst (visionStep w img)) x y None None, snd (visionStep w img), st)"
  using afterVision_no_location [OF assms] finalFallback_no_location [OF assms]
  by (simp add: resolve_def split: prod.splits)

lemma visionStep_calls: "c \<in> set (snd (visionStep w img)) \<Longrightarrow> \<exists>d. c = CallGemini d"
  by (auto simp: visionStep_def Let_def split: if_splits geminiOutcome.splits option.splits)

lemma POST_calls_no_location:
  assumes "\<not> hasLocation (latitude b) (longitude b)"
    "c \<in> set (fst (snd (POST now st (req\<lparr>body := Some b\<rparr>) w)))"
  shows "c = ReadBody \<or> (\<exists>d. c = CallGemini d)"
proof -
  obtain rl st1 where rl: "checkRateLimit now (getClientIdentifier (req\<lparr>body := Some b\<rparr>)) st = (rl, st1)"
    by (cases "checkRateLimit now (getClientIdentifier (req\<lparr>body := Some b\<rparr>)) st")
  show ?thesis
    using assms(2) rl resolve_no_location [OF assms(1)]
    by (auto simp: POST_def Let_def split: if_splits option.splits prod.splits
        dest: visionStep_calls)
qed

lemma POST_no_location:
  assumes "\<not> hasLocation (latitude b) (longitude b)"
  shows "POST now st (req\<lparr>body := Some b\<rparr>) w =
         POST now st (req\<lparr>body := Some (b\<lparr>latitude := None, longitude := None\<rparr>)\<rparr>) w"
proof -
  have n: "\<not> hasLocation None None" by (simp add: hasLocation_def)
  have i: "getClientIdentifier (req\<lparr>body := bd\<rparr>) = getClientIdentifier req" for bd
    by (simp add: getClientIdentifier_def)
  show ?thesis
    unfolding POST_def i Let_def
    using resolve_no_location [OF assms] resolve_no_location [OF n]
    by (simp split: prod.splits option.splits)
qed

text \<open>
  C10. A request whose latitude or longitude is exactly 0 is handled as the same request
  without a location: the response, the calls and the store are equal, the only calls
  are the reading of the body and the vision call (no search, no details, no nearby
  fallback), and without a vision hint the result is "Location Required".
\<close>

theorem zero_coordinate_is_no_location:
  "latitude b = Some 0 \<or> longitude b = Some 0 \<longrightarrow>
     POST now st (req\<lparr>body := Some b\<rparr>) w =
       POST now st (req\<lparr>body := Some (b\<lparr>latitude := None, longitude := None\<rparr>)\<rparr>) w \<and>
     (\<forall>c \<in> set (fst (snd (POST now st (req\<lparr>body := Some b\<rparr>) w))).
        c = ReadBody \<or> (\<exists>d. c = CallGemini d)) \<and>
     (fst (visionStep w img) = None \<longrightarrow>
        fst (resolve st clientId w img x y (latitude b) (longitude b)) = locationRequired)"
proof
  assume "latitude b = Some 0 \<or> longitude b = Some 0"
  then have n: "\<not> hasLocation (latitude b) (longitude b)"
    by (auto simp: hasLocation_def)
  show "POST now st (req\<lparr>body := Some b\<rparr>) w =
       POST now st (req\<lparr>body := Some (b\<lparr>latitude := None, longitude := None\<rparr>)\<rparr>) w \<and>
     (\<forall>c \<in> set (fst (snd (POST now st (req\<lparr>body := Some b\<rparr>) w))).
        c = ReadBody \<or> (\<exists>d. c = CallGemini d)) \<and>
     (fst (visionStep w img) = None \<longrightarrow>
        fst (resolve st clientId w img x y (latitude b) (longitude b)) = locationRequired)"
    using POST_no_location [OF n] POST_calls_no_location [OF n] resolve_no_location [OF n]
    by (auto simp: finalFallback_none hasLocation_def)
qed

lemma match_ferry_text: "matchBraces (stripFences ferry_text) = Some ferry_text"
  by (simp add: matchBraces_def stripFences_def trim_def spaceAt_def whiteSpace_def ferry_text_def)

lemma afterVision_located:
  assumes "hasLocation (Some la) (Some lo)"
  shows "afterVision st clientId w vision x y (Some la) (Some lo) =
     (case placeLookup w vision (fst (tapDirection x)) (snd (tapDirection x)) la lo of
        (Some r, calls1) \<Rightarrow> (r, calls1, st)
      | (None, calls1) \<Rightarrow>
          (case geoFallback st clientId w vision (fst (tapDirection x)) (snd (tapDirection x)) la lo of
             (Some r, calls2, st') \<Rightarrow> (r, calls1 @ calls2, st')
           | (None, calls2, st') \<Rightarrow>
               (finalFallback w vision x y (Some la) (Some lo), calls1 @ calls2, st')))"
  using assms by (cases "tapDirection x") (auto simp: afterVision_def split: prod.splits option.splits)

text \<open>
  C3, as amended. With no vision hint, a location, no result from the place lookup of
  Step 3 (with no hint: no candidate accepted) and no place from the nearby fallback,
  the result has confidence 0.3; it is "No Information Found" with the request's
  latitude and longitude when the API key is configured, and "API Key Not Configured"
  when it is not.
\<close>

theorem nothing_found_fallback:
  "fst (visionStep w img) = None \<and> hasLocation (Some la) (Some lo) \<and>
   fst (placeLookup w None (fst (tapDirection x)) (snd (tapDirection x)) la lo) = None \<and>
   fst (geoFallback st clientId w None (fst (tapDirection x)) (snd (tapDirection x)) la lo) = None
   \<longrightarrow>
     fst (resolve st clientId w img x y (Some la) (Some lo)) =
       (if hasApiKey w then noInformationFound la lo else apiKeyNotConfigured) \<and>
     confidence (fst (resolve st clientId w img x y (Some la) (Some lo))) = 0.3"
proof
  assume a: "fst (visionStep w img) = None \<and> hasLocation (Some la) (Some lo) \<and>
   fst (placeLookup w None (fst (tapDirection x)) (snd (tapDirection x)) la lo) = None \<and>
   fst (geoFallback st clientId w None (fst (tapDirection x)) (snd (tapDirection x)) la lo) = None"
  then have loc: "hasLocation (Some la) (Some lo)" by simp
  obtain calls0 where v: "visionStep w img = (None, calls0)"
    using a by (cases "visionStep w img") simp
  obtain calls1 where p: "placeLookup w None (fst (tapDirection x)) (snd (tapDirection x)) la lo = (None, calls1)"
    using a by (cases "placeLookup w None (fst (tapDirection x)) (snd (tapDirection x)) la lo") simp
  obtain calls2 st' where g:
    "geoFallback st clientId w None (fst (tapDirection x)) (snd (tapDirection x)) la lo = (None, calls2, st')"
    using a by (cases "geoFallback st clientId w None (fst (tapDirection x)) (snd (tapDirection x)) la lo") simp
  have "fst (resolve st clientId w img x y (Some la) (Some lo)) =
        finalFallback w None x y (Some la) (Some lo)"
    by (simp add: resolve_def v afterVision_located [OF loc] p g)
  then have r: "fst (resolve st clientId w img x y (Some la) (Some lo)) =
       (if hasApiKey w then noInformationFound la lo else apiKeyNotConfigured)"
    using loc by (simp add: finalFallback_none)
  then show "fst (resolve st clientId w img x y (Some la) (Some lo)) =
       (if hasApiKey w then noInformationFound la lo else apiKeyNotConfigured) \<and>
     confidence (fst (resolve st clientId w img x y (Some la) (Some lo))) = 0.3"
    by (simp add: noInformationFound_def apiKeyNotConfigured_def)
qed

lemma visionStep_quiet: "visionStep quiet_world img = (None, [CallGemini (base64Image img)])"
  by (simp add: visionStep_def quiet_world_def)

lemma visionStep_keyless: "visionStep keyless_world img = (None, [])"
  by (simp add: visionStep_def keyless_world_def quiet_world_def)

lemma located_example: "hasLocation (Some 38) (Some (- 122))"
  by (simp add: hasLocation_def)

lemma placeLookup_quiet:
  "placeLookup quiet_world None dx dz la lo = (None, [CallNearbySearch searchRadius])"
  by (simp add: placeLookup_def strategy1_def strategy2_def quiet_world_def bestNearby_def)

lemma placeLookup_keyless: "placeLookup keyless_world vision dx dz la lo = (None, [])"
  by (simp add: placeLookup_def keyless_world_def quiet_world_def)

lemma checkRateLimit_empty:
  "checkRateLimit now ident [] =
     (\<lparr>allowed = True, remaining = 59, result_resetAt = now + 60000\<rparr>,
      [(ident, \<lparr>count = 1, resetAt = now + 60000\<rparr>)])"
  by (simp add: checkRateLimit_def newWindow_def Let_def RATE_LIMIT_WINDOW_MS_def
      RATE_LIMIT_MAX_REQUESTS_def)

lemma geoFallback_quiet:
  "geoFallback [] ident quiet_world None dx dz 38 (- 122) =
     (None, [CallGeoContext, CallNearbySearch 500], [(ident, \<lparr>count = 1, resetAt = 60000\<rparr>)])"
  by (simp add: geoFallback_def geoContextHandler_def checkRateLimit_empty geoPlaces_def
      quiet_world_def)

lemma geoFallback_keyless:
  "geoFallback [] ident keyless_world None dx dz 38 (- 122) =
     (None, [CallGeoContext], [(ident, \<lparr>count = 1, resetAt = 60000\<rparr>)])"
  by (simp add: geoFallback_def geoContextHandler_def checkRateLimit_empty geoPlaces_def
      keyless_world_def quiet_world_def)

theorem nothing_found_fallback_witness:
  "fst (visionStep quiet_world ''frame'') = None \<and> hasLocation (Some 38) (Some (- 122)) \<and>
   fst (placeLookup quiet_world None (fst (tapDirection 0.5)) (snd (tapDirection 0.5)) 38 (- 122)) = None \<and>
   fst (geoFallback [] ''client'' quiet_world None (fst (tapDirection 0.5)) (snd (tapDirection 0.5))
          38 (- 122)) = None \<and>
   hasApiKey quiet_world \<and>
   fst (resolve [] ''client'' quiet_world ''frame'' 0.5 0.5 (Some 38) (Some (- 122))) =
     \<lparr>title = ''No Information Found'', subtitle = LocationText 38 (- 122),
      year = None, confidence = 0.3, url = None\<rparr>"
proof -
  have k: "hasApiKey quiet_world" by (simp add: quiet_world_def)
  have h: "fst (visionStep quiet_world ''frame'') = None"
    "fst (placeLookup quiet_world None (fst (tapDirection 0.5)) (snd (tapDirection 0.5)) 38 (- 122)) = None"
    "fst (geoFallback [] ''client'' quiet_world None (fst (tapDirection 0.5)) (snd (tapDirection 0.5))
          38 (- 122)) = None"
    by (simp_all add: visionStep_quiet placeLookup_quiet geoFallback_quiet)
  have "fst (resolve [] ''client'' quiet_world ''frame'' 0.5 0.5 (Some 38) (Some (- 122))) =
        noInformationFound 38 (- 122)"
    using nothing_found_fallback [of quiet_world "''frame''" 38 "- 122" "0.5" "[]" "''client''" "0.5"]
      h k located_example by simp
  then show ?thesis using h k located_example by (simp add: noInformationFound_def)
qed

text \<open>
  C3 as stated fails: without the API key the hypotheses hold and the title is "API Key
  Not Configured"; with the key, the subtitle carries the location, not the tap position.
\<close>

theorem nothing_found_counterexample:
  "fst (visionStep keyless_world ''frame'') = None \<and> hasLocation (Some 38) (Some (- 122)) \<and>
   fst (placeLookup keyless_world None (fst (tapDirection 0.5)) (snd (tapDirection 0.5)) 38 (- 122)) = None \<and>
   fst (geoFallback [] ''client'' keyless_world None (fst (tapDirection 0.5)) (snd (tapDirection 0.5))
          38 (- 122)) = None \<and>
   title (fst (resolve [] ''client'' keyless_world ''frame'' 0.5 0.5 (Some 38) (Some (- 122)))) =
     ''API Key Not Configured'' \<and>
   fst (resolve [] ''client'' keyless_world ''frame'' 0.5 0.5 (Some 38) (Some (- 122))) \<noteq>
     noInformationFound 38 (- 122) \<and>
   fst (visionStep quiet_world ''frame'') = None \<and>
   fst (placeLookup quiet_world None (fst (tapDirection 0.5)) (snd (tapDirection 0.5)) 38 (- 122)) = None \<and>
   fst (geoFallback [] ''client'' quiet_world None (fst (tapDirection 0.5)) (snd (tapDirection 0.5))
          38 (- 122)) = None \<and>
   subtitle (fst (resolve [] ''client'' quiet_world ''frame'' 0.5 0.5 (Some 38) (Some (- 122)))) =
     LocationText 38 (- 122) \<and>
   subtitle (fst (resolve [] ''client'' quiet_world ''frame'' 0.5 0.5 (Some 38) (Some (- 122)))) \<noteq>
     TappedAt 0.5 0.5"
proof -
  have k: "\<not> hasApiKey keyless_world" "hasApiKey quiet_world"
    by (simp_all add: keyless_world_def quiet_world_def)
  have r1: "fst (resolve [] ''client'' keyless_world ''frame'' 0.5 0.5 (Some 38) (Some (- 122))) =
        apiKeyNotConfigured"
    using k
    by (simp add: resolve_def visionStep_keyless afterVision_located [OF located_example]
        placeLookup_keyless geoFallback_keyless finalFallback_none located_example)
  have r2: "fst (resolve [] ''client'' quiet_world ''frame'' 0.5 0.5 (Some 38) (Some (- 122))) =
        noInformationFound 38 (- 122)"
    using k
    by (simp add: resolve_def visionStep_quiet afterVision_located [OF located_example]
        placeLookup_quiet geoFallback_quiet finalFallback_none located_example)
  show ?thesis
    unfolding r1 r2
    by (simp add: visionStep_keyless visionStep_quiet placeLookup_keyless placeLookup_quiet
        geoFallback_keyless geoFallback_quiet located_example apiKeyNotConfigured_def
        noInformationFound_def)
qed

lemma fetchDetails_ok:
  "placeDetails w pid = Fetched (Some detailed) \<Longrightarrow>
   fetchDetails w vision pid = (Some (combinedResult vision detailed), [CallDetails pid])"
  by (simp add: fetchDetails_def)

lemma placeLookup_accepted1:
  assumes "hasApiKey w" "strategy1 w vision la lo = (Done (Some mA), callsA)"
    "place_id (a_place mA) = pid" "pid \<noteq> []" "placeDetails w pid = Fetched (Some detailed)"
  shows "fst (placeLookup w vision dx dz la lo) = Some (combinedResult vision detailed)"
  using assms by (simp add: placeLookup_def fetchDetails_ok)

lemma placeLookup_accepted2:
  assumes "hasApiKey w" "strategy1 w vision la lo = (Done accA, callsA)"
    "case accA of None \<Rightarrow> True | Some mA \<Rightarrow> place_id (a_place mA) = []"
    "strategy2 w vision dx dz la lo = (Done (Some mB), callsB)"
    "place_id (b_place mB) = pid" "pid \<noteq> []" "placeDetails w pid = Fetched (Some detailed)"
  shows "fst (placeLookup w vision dx dz la lo) = Some (combinedResult vision detailed)"
  using assms by (cases accA) (simp_all add: placeLookup_def fetchDetails_ok)

lemma resolve_place_found:
  assumes "hasLocation (Some la) (Some lo)"
    "fst (placeLookup w (fst (visionStep w img)) (fst (tapDirection x)) (snd (tapDirection x)) la lo) = Some r"
  shows "fst (resolve st clientId w img x y (Some la) (Some lo)) = r"
proof -
  obtain vision calls0 where v: "visionStep w img = (vision, calls0)" by (cases "visionStep w img")
  obtain calls1 where
    "placeLookup w vision (fst (tapDirection x)) (snd (tapDirection x)) la lo = (Some r, calls1)"
    using assms(2) v
    by (cases "placeLookup w vision (fst (tapDirection x)) (snd (tapDirection x)) la lo") simp
  then show ?thesis
    by (simp add: resolve_def v afterVision_located [OF assms(1)])
qed

text \<open>
  C4. When a candidate is accepted, by the text search or by the nearby search, and the
  details of its place are fetched, the result is the merged one and its confidence is
  0.9, whatever the scores of the candidate.
\<close>

theorem accepted_place_confidence:
  "hasApiKey w \<and> hasLocation (Some la) (Some lo) \<and> vision = fst (visionStep w img) \<and>
   ((strategy1 w vision la lo = (Done (Some mA), callsA) \<and> place_id (a_place mA) = pid) \<or>
    (strategy1 w vision la lo = (Done accA, callsA) \<and>
     (case accA of None \<Rightarrow> True | Some mA \<Rightarrow> place_id (a_place mA) = []) \<and>
     strategy2 w vision (fst (tapDirection x)) (snd (tapDirection x)) la lo = (Done (Some mB), callsB) \<and>
     place_id (b_place mB) = pid)) \<and>
   pid \<noteq> [] \<and> placeDetails w pid = Fetched (Some detailed)
   \<longrightarrow>
     fst (resolve st clientId w img x y (Some la) (Some lo)) = combinedResult vision detailed \<and>
     confidence (fst (resolve st clientId w img x y (Some la) (Some lo))) = 0.9"
proof
  assume a: "hasApiKey w \<and> hasLocation (Some la) (Some lo) \<and> vision = fst (visionStep w img) \<and>
   ((strategy1 w vision la lo = (Done (Some mA), callsA) \<and> place_id (a_place mA) = pid) \<or>
    (strategy1 w vision la lo = (Done accA, callsA) \<and>
     (case accA of None \<Rightarrow> True | Some mA \<Rightarrow> place_id (a_place mA) = []) \<and>
     strategy2 w vision (fst (tapDirection x)) (snd (tapDirection x)) la lo = (Done (Some mB), callsB) \<and>
     place_id (b_place mB) = pid)) \<and>
   pid \<noteq> [] \<and> placeDetails w pid = Fetched (Some detailed)"
  then have "fst (placeLookup w vision (fst (tapDirection x)) (snd (tapDirection x)) la lo) =
             Some (combinedResult vision detailed)"
    using placeLookup_accepted1 [of w vision la lo mA callsA pid detailed]
      placeLookup_accepted2 [of w vision la lo accA callsA _ _ mB callsB pid detailed]
    by blast
  then have "fst (resolve st clientId w img x y (Some la) (Some lo)) = combinedResult vision detailed"
    using a resolve_place_found [of la lo w img x] by simp
  then show "fst (resolve st clientId w img x y (Some la) (Some lo)) = combinedResult vision detailed \<and>
     confidence (fst (resolve st clientId w img x y (Some la) (Some lo))) = 0.9"
    by (simp add: combinedResult_def)
qed

lemma visionStep_ferry: "visionStep ferry_world img = (Some ferry_vision, [CallGemini (base64Image img)])"
proof -
  have "ferry_text \<noteq> []" by (simp add: ferry_text_def)
  then show ?thesis
    by (simp add: visionStep_def ferry_world_def quiet_world_def parseVisionText_def match_ferry_text)
qed

theorem accepted_place_confidence_witness:
  "hasApiKey ferry_world \<and> hasLocation (Some 38) (Some (- 122)) \<and>
   fst (visionStep ferry_world ''frame'') = Some ferry_vision \<and>
   strategy1 ferry_world (Some ferry_vision) 38 (- 122) =
     (Done (Some \<lparr>a_place = ferry_building, a_distance = Num 0, a_nameScore = 1, a_score = Num 1\<rparr>),
      [CallTextSearch (NameOnly ''Ferry Building'')]) \<and>
   place_id ferry_building = ''ferry-building'' \<and>
   placeDetails ferry_world ''ferry-building'' = Fetched (Some ferry_details) \<and>
   fst (resolve [] ''client'' ferry_world ''frame'' 0.5 0.5 (Some 38) (Some (- 122))) =
     \<lparr>title = ''Ferry Building'', subtitle = FormattedType ''landmark'', year = None,
      confidence = 0.9, url = Some ''https://maps.google.com/?cid=1''\<rparr>"
proof -
  let ?m = "\<lparr>a_place = ferry_building, a_distance = Num 0, a_nameScore = 1, a_score = Num 1\<rparr>"
  have h: "hasApiKey ferry_world" "place_id ferry_building = ''ferry-building''"
    "placeDetails ferry_world ''ferry-building'' = Fetched (Some ferry_details)"
    by (simp_all add: ferry_world_def quiet_world_def ferry_building_def)
  have hv: "fst (visionStep ferry_world ''frame'') = Some ferry_vision"
    by (simp add: visionStep_ferry)
  have "fst (resolve [] ''client'' ferry_world ''frame'' 0.5 0.5 (Some 38) (Some (- 122))) =
        combinedResult (Some ferry_vision) ferry_details"
    using accepted_place_confidence [where w = ferry_world and la = 38 and lo = "- 122"
        and vision = "Some ferry_vision" and img = "''frame''" and mA = ?m
        and callsA = "[CallTextSearch (NameOnly ''Ferry Building'')]" and pid = "''ferry-building''"
        and detailed = ferry_details and st = "[]" and clientId = "''client''" and x = "0.5" and y = "0.5"]
      h hv strategy1_ferry located_example
    by simp
  then show ?thesis using h hv strategy1_ferry located_example
    by (simp add: combinedResult_def ferry_vision_def ferry_details_def v_field_def js_or_def yearOf_def)
qed

lemma visionStep_failure:
  assumes "\<not> hasApiKey w \<or> gemini w (base64Image img) = GeminiThrew \<or>
     gemini w (base64Image img) = GeminiNotOk \<or> gemini w (base64Image img) = GeminiBadBody \<or>
     gemini w (base64Image img) = GeminiText None \<or> gemini w (base64Image img) = GeminiText (Some [])"
  shows "fst (visionStep w img) = None"
  using assms by (auto simp: visionStep_def Let_def)

lemma visionStep_text:
  assumes "hasApiKey w" "gemini w (base64Image img) = GeminiText (Some reply)" "reply \<noteq> []"
  shows "fst (visionStep w img) = parseVisionText w reply"
  using assms by (simp add: visionStep_def Let_def)

lemma POST_valid:
  assumes "allowed (fst (checkRateLimit now (getClientIdentifier req) st))"
    "body req = Some b" "image b = Some img" "img \<noteq> []"
    "real (length img) * 3 / 4 \<le> 5 * 1024 * 1024" "tapX b = Some x" "tapY b = Some y"
  shows "fst (POST now st req w) =
           Answer (fst (afterVision (snd (checkRateLimit now (getClientIdentifier req) st))
                          (getClientIdentifier req) w (fst (visionStep w img)) x y
                          (latitude b) (longitude b)))
                  (fst (checkRateLimit now (getClientIdentifier req) st))"
proof -
  obtain rl st1 where rl: "checkRateLimit now (getClientIdentifier req) st = (rl, st1)"
    by (cases "checkRateLimit now (getClientIdentifier req) st")
  have le: "\<not> real (length img) * 3 / 4 > 5 * 1024 * 1024" using assms(5) by simp
  show ?thesis
    using assms(1-4,6,7) le rl
    by (simp add: POST_def Let_def resolve_def split: prod.splits)
qed

text \<open>
  C5, as amended. If the key is missing, the vision call throws, its response is not ok,
  its body cannot be read or holds no text, the hint is null. If the text holds a
  brace-delimited part on which \<open>JSON.parse\<close> fails, name, type and description come
  from the patterns applied to the raw text; if it holds no such part, the hint is null.
  In every case the handler goes on: for a valid request that is not rate limited the
  response is the result of Step 3 and the fallbacks, run with that hint.
\<close>

theorem vision_failure_continues:
  "((\<not> hasApiKey w \<or> gemini w (base64Image img) = GeminiThrew \<or>
     gemini w (base64Image img) = GeminiNotOk \<or> gemini w (base64Image img) = GeminiBadBody \<or>
     gemini w (base64Image img) = GeminiText None \<or> gemini w (base64Image img) = GeminiText (Some []))
    \<longrightarrow> fst (visionStep w img) = None) \<and>
   (hasApiKey w \<and> gemini w (base64Image img) = GeminiText (Some reply) \<and> reply \<noteq> [] \<and>
    matchBraces (stripFences reply) = Some jsonMatch \<and> jsonParse w jsonMatch = None
    \<longrightarrow> fst (visionStep w img) = Some (extractFallback w reply)) \<and>
   (hasApiKey w \<and> gemini w (base64Image img) = GeminiText (Some reply) \<and> reply \<noteq> [] \<and>
    matchBraces (stripFences reply) = None
    \<longrightarrow> fst (visionStep w img) = None) \<and>
   (allowed (fst (checkRateLimit now (getClientIdentifier req) st)) \<and>
    body req = Some b \<and> image b = Some img \<and> img \<noteq> [] \<and>
    real (length img) * 3 / 4 \<le> 5 * 1024 * 1024 \<and> tapX b = Some x \<and> tapY b = Some y
    \<longrightarrow> fst (POST now st req w) =
          Answer (fst (afterVision (snd (checkRateLimit now (getClientIdentifier req) st))
                         (getClientIdentifier req) w (fst (visionStep w img)) x y
                         (latitude b) (longitude b)))
                 (fst (checkRateLimit now (getClientIdentifier req) st)))"
proof (intro conjI impI)
  assume "\<not> hasApiKey w \<or> gemini w (base64Image img) = GeminiThrew \<or>
     gemini w (base64Image img) = GeminiNotOk \<or> gemini w (base64Image img) = GeminiBadBody \<or>
     gemini w (base64Image img) = GeminiText None \<or> gemini w (base64Image img) = GeminiText (Some [])"
  then show "fst (visionStep w img) = None" by (rule visionStep_failure)
next
  assume "hasApiKey w \<and> gemini w (base64Image img) = GeminiText (Some reply) \<and> reply \<noteq> [] \<and>
    matchBraces (stripFences reply) = Some jsonMatch \<and> jsonParse w jsonMatch = None"
  then show "fst (visionStep w img) = Some (extractFallback w reply)"
    using visionStep_text [of w img reply] by (simp add: parseVisionText_def)
next
  assume "hasApiKey w \<and> gemini w (base64Image img) = GeminiText (Some reply) \<and> reply \<noteq> [] \<and>
    matchBraces (stripFences reply) = None"
  then show "fst (visionStep w img) = None"
    using visionStep_text [of w img reply] by (simp add: parseVisionText_def)
next
  assume "allowed (fst (checkRateLimit now (getClientIdentifier req) st)) \<and>
    body req = Some b \<and> image b = Some img \<and> img \<noteq> [] \<and>
    real (length img) * 3 / 4 \<le> 5 * 1024 * 1024 \<and> tapX b = Some x \<and> tapY b = Some y"
  then show "fst (POST now st req w) =
          Answer (fst (afterVision (snd (checkRateLimit now (getClientIdentifier req) st))
                         (getClientIdentifier req) w (fst (visionStep w img)) x y
                         (latitude b) (longitude b)))
                 (fst (checkRateLimit now (getClientIdentifier req) st))"
    by (intro POST_valid) simp_all
qed

lemma prose_world_simps:
  "hasApiKey (prose_world t)" "gemini (prose_world t) d = GeminiText (Some t)"
  "jsonParse (prose_world t) u = None" "matchName (prose_world t) u = Some ''Ferry Building''"
  "matchType (prose_world t) u = Some ''landmark''" "matchDescription (prose_world t) u = None"
  by (simp_all add: prose_world_def quiet_world_def)

lemma braces_braced: "matchBraces (stripFences braced_text) = Some braced_text"
  by (simp add: matchBraces_def stripFences_def trim_def spaceAt_def whiteSpace_def braced_text_def)

lemma braces_unbraced: "matchBraces (stripFences unbraced_text) = None"
  by (simp add: matchBraces_def stripFences_def trim_def spaceAt_def whiteSpace_def unbraced_text_def)

lemma extract_prose:
  "extractFallback (prose_world t) u =
     \<lparr>v_name = Some ''Ferry Building'', v_type = Some ''landmark'', v_description = None,
      v_details = None, v_year = None, v_architecturalStyle = None, v_significance = None\<rparr>"
  by (simp add: extractFallback_def prose_world_simps stripQuotes_def trim_def spaceAt_def whiteSpace_def
      is_quote_def)

text \<open>
  C5 as stated fails: a text without braces does not parse as JSON, the patterns would
  find a name and a type in it, and the hint is null.
\<close>

theorem vision_failure_counterexample:
  "hasApiKey (prose_world unbraced_text) \<and>
   gemini (prose_world unbraced_text) (base64Image ''frame'') = GeminiText (Some unbraced_text) \<and>
   unbraced_text \<noteq> [] \<and>
   jsonParse (prose_world unbraced_text) unbraced_text = None \<and>
   extractFallback (prose_world unbraced_text) unbraced_text =
     \<lparr>v_name = Some ''Ferry Building'', v_type = Some ''landmark'', v_description = None,
      v_details = None, v_year = None, v_architecturalStyle = None, v_significance = None\<rparr> \<and>
   fst (visionStep (prose_world unbraced_text) ''frame'') = None \<and>
   fst (visionStep (prose_world unbraced_text) ''frame'') \<noteq>
     Some (extractFallback (prose_world unbraced_text) unbraced_text)"
proof -
  have n: "unbraced_text \<noteq> []" by (simp add: unbraced_text_def)
  have "fst (visionStep (prose_world unbraced_text) ''frame'') = None"
    using visionStep_text [of "prose_world unbraced_text" "''frame''" unbraced_text] n
    by (simp add: prose_world_simps parseVisionText_def braces_unbraced)
  then show ?thesis using n by (simp add: prose_world_simps extract_prose)
qed

lemma tap_request_simps:
  "getClientIdentifier tap_request = ''10.0.0.9''" "body tap_request = Some tap_body"
  by (simp_all add: getClientIdentifier_def tap_request_def tap_body_def js_or_def)

lemma afterVision_quiet:
  "fst (afterVision [(''10.0.0.9'', \<lparr>count = 1, resetAt = 60000\<rparr>)] ''10.0.0.9'' quiet_world
          None x y (Some 38) (Some (- 122))) = noInformationFound 38 (- 122)"
proof -
  have g: "geoFallback [(''10.0.0.9'', \<lparr>count = 1, resetAt = 60000\<rparr>)] ''10.0.0.9'' quiet_world
                  None dx dz 38 (- 122) =
           (None, [CallGeoContext, CallNearbySearch 500],
            [(''10.0.0.9'', \<lparr>count = 2, resetAt = 60000\<rparr>)])" for dx dz
    by (simp add: geoFallback_def geoContextHandler_def checkRateLimit_def geoPlaces_def
        quiet_world_def RATE_LIMIT_MAX_REQUESTS_def Let_def)
  have k: "hasApiKey quiet_world" by (simp add: quiet_world_def)
  show ?thesis
    using k
    by (simp add: afterVision_located [OF located_example] placeLookup_quiet g finalFallback_none
        located_example)
qed

theorem vision_failure_continues_witness:
  "gemini quiet_world (base64Image ''frame'') = GeminiNotOk \<and>
   fst (visionStep quiet_world ''frame'') = None \<and>
   hasApiKey (prose_world braced_text) \<and>
   gemini (prose_world braced_text) (base64Image ''frame'') = GeminiText (Some braced_text) \<and>
   matchBraces (stripFences braced_text) = Some braced_text \<and>
   jsonParse (prose_world braced_text) braced_text = None \<and>
   fst (visionStep (prose_world braced_text) ''frame'') =
     Some \<lparr>v_name = Some ''Ferry Building'', v_type = Some ''landmark'', v_description = None,
           v_details = None, v_year = None, v_architecturalStyle = None, v_significance = None\<rparr> \<and>
   matchBraces (stripFences unbraced_text) = None \<and>
   fst (visionStep (prose_world unbraced_text) ''frame'') = None \<and>
   allowed (fst (checkRateLimit 0 (getClientIdentifier tap_request) [])) \<and>
   body tap_request = Some tap_body \<and>
   fst (POST 0 [] tap_request quiet_world) =
     Answer (noInformationFound 38 (- 122)) \<lparr>allowed = True, remaining = 59, result_resetAt = 60000\<rparr>"
proof -
  have q: "gemini quiet_world (base64Image ''frame'') = GeminiNotOk"
    by (simp add: quiet_world_def)
  have n: "braced_text \<noteq> []" "unbraced_text \<noteq> []"
    by (simp_all add: braced_text_def unbraced_text_def)
  have v1: "fst (visionStep quiet_world ''frame'') = None"
    using vision_failure_continues [where w = quiet_world and img = "''frame''"] q by blast
  have v2: "fst (visionStep (prose_world braced_text) ''frame'') =
            Some (extractFallback (prose_world braced_text) braced_text)"
    using vision_failure_continues [where w = "prose_world braced_text" and img = "''frame''"
        and reply = braced_text and jsonMatch = braced_text] n braces_braced
    by (simp add: prose_world_simps)
  have v3: "fst (visionStep (prose_world unbraced_text) ''frame'') = None"
    using vision_failure_continues [where w = "prose_world unbraced_text" and img = "''frame''"
        and reply = unbraced_text] n braces_unbraced
    by (simp add: prose_world_simps)
  have al: "allowed (fst (checkRateLimit 0 (getClientIdentifier tap_request) []))"
    by (simp add: tap_request_simps checkRateLimit_empty)
  have tb: "image tap_body = Some ''frame''" "tapX tap_body = Some 0.5" "tapY tap_body = Some 0.5"
    "latitude tap_body = Some 38" "longitude tap_body = Some (- 122)"
    by (simp_all add: tap_body_def)
  have "fst (POST 0 [] tap_request quiet_world) =
          Answer (fst (afterVision (snd (checkRateLimit 0 (getClientIdentifier tap_request) []))
                         (getClientIdentifier tap_request) quiet_world
                         (fst (visionStep quiet_world ''frame'')) 0.5 0.5
                         (latitude tap_body) (longitude tap_body)))
                 (fst (checkRateLimit 0 (getClientIdentifier tap_request) []))"
    using vision_failure_continues [where w = quiet_world and img = "''frame''" and now = 0
        and st = "[]" and req = tap_request and b = tap_body and x = "0.5" and y = "0.5"]
      al tap_request_simps(2) tb
    by simp
  then have p: "fst (POST 0 [] tap_request quiet_world) =
     Answer (noInformationFound 38 (- 122)) \<lparr>allowed = True, remaining = 59, result_resetAt = 60000\<rparr>"
    by (simp add: tap_request_simps checkRateLimit_empty v1 tb afterVision_quiet)
  show ?thesis
    using q v1 v2 v3 braces_braced braces_unbraced al p
    by (simp add: prose_world_simps extract_prose tap_request_simps)
qed

theorem zero_coordinate_is_no_location_witness:
  "latitude equator_body = Some 0 \<and>
   POST 0 [] (tap_request\<lparr>body := Some equator_body\<rparr>) quiet_world =
     POST 0 [] (tap_request\<lparr>body := Some (equator_body\<lparr>latitude := None, longitude := None\<rparr>)\<rparr>)
       quiet_world \<and>
   list_all (\<lambda>c. c = ReadBody \<or> (\<exists>d. c = CallGemini d))
     (fst (snd (POST 0 [] (tap_request\<lparr>body := Some equator_body\<rparr>) quiet_world))) \<and>
   fst (visionStep quiet_world ''frame'') = None \<and>
   fst (resolve [] ''10.0.0.9'' quiet_world ''frame'' 0.5 0.5 (Some 0) (Some (- 122))) =
     \<lparr>title = ''Location Required'',
      subtitle = FixedText ''Please enable location permissions to get real information about places you tap on.'',
      year = None, confidence = 0.3, url = None\<rparr>"
proof -
  have e: "latitude equator_body = Some 0" "longitude equator_body = Some (- 122)"
    by (simp_all add: equator_body_def)
  have v: "fst (visionStep quiet_world ''frame'') = None" by (simp add: visionStep_quiet)
  note t = zero_coordinate_is_no_location [where b = equator_body and now = 0 and st = "[]"
      and req = tap_request and w = quiet_world and img = "''frame''" and clientId = "''10.0.0.9''"
      and x = "0.5" and y = "0.5"]
  have "fst (resolve [] ''10.0.0.9'' quiet_world ''frame'' 0.5 0.5 (Some 0) (Some (- 122))) =
        locationRequired"
    using t e v by simp
  moreover have "POST 0 [] (tap_request\<lparr>body := Some equator_body\<rparr>) quiet_world =
     POST 0 [] (tap_request\<lparr>body := Some (equator_body\<lparr>latitude := None, longitude := None\<rparr>)\<rparr>)
       quiet_world"
    using t e by blast
  moreover have "\<forall>c \<in> set (fst (snd (POST 0 [] (tap_request\<lparr>body := Some equator_body\<rparr>) quiet_world))).
        c = ReadBody \<or> (\<exists>d. c = CallGemini d)"
    using t e by blast
  ultimately show ?thesis using e v by (simp add: locationRequired_def list_all_iff)
qed

end
